theory Spec2Isabelle
  imports Complex_Main "HOL-Library.List_Lexorder" "HOL-Library.Char_ord" "HOL-Library.Log_Nat"
begin

section \<open>Values, errors and the libraries the code calls\<close>

text \<open>
  The two source files are glue over ANTsPy, nibabel and numpy. The embedding keeps the
  glue and takes the libraries as parameters:
  \<^item> a numpy array is its shape and the list of its values in row-major order (the order
    of \<open>flatten()\<close>); an array of shape \<open>[d\<^sub>1, \<dots>, d\<^sub>k]\<close> has \<open>d\<^sub>1 * \<dots> * d\<^sub>k\<close> values;
  \<^item> the values of the voxels (float32 in the source) are exact rationals. The one
    special float the code can produce by itself, the NaN that \<open>np.mean\<close> returns on an
    empty selection, is \<open>None\<close>. The product \<open>len(data) * prob\<close> of line 86 is a
    binary64 product and is rounded as such;
  \<^item> an image object is either a nibabel image or an ANTsPy image, the two types the
    docstring of \<open>csf_mask\<close> accepts;
  \<^item> every raise of the source is an \<open>Inl\<close> of the result.
\<close>

record 'v array =
  shape :: "nat list"
  voxels :: "'v list"

type_synonym ndarray = "rat array"

text \<open>\<open>np.array(xs)\<close> of a flat list: the array of one axis.\<close>

definition vector :: "'v list \<Rightarrow> 'v array" where
  "vector xs = \<lparr>shape = [length xs], voxels = xs\<rparr>"

datatype ('n, 'a) image = Nifti1Image 'n | ANTsImage 'a

datatype 'e error =
    NormalizationError rat
  | TypeError
  | ValueError
  | IndexError
  | AttributeError
  | LibraryError 'e

text \<open>
  The calls into ANTsPy. \<open>from_nibabel\<close>, \<open>kmeans_segmentation\<close> and
  \<open>image_read\<close> may raise (an \<open>Inl\<close>, propagated unchanged by the code);
  \<open>kmeans_segmentation\<close> returns the list \<open>res['probabilityimages']\<close>;
  \<open>numpy\<close> is the method \<open>.numpy()\<close> of an ANTsPy image.
\<close>

record ('n, 'a, 'e) ants =
  from_nibabel :: "'n \<Rightarrow> 'e + 'a"
  kmeans_segmentation :: "'a \<Rightarrow> nat \<Rightarrow> ('n, 'a) image option \<Rightarrow> rat \<Rightarrow> 'e + 'a list"
  numpy :: "'a \<Rightarrow> ndarray"
  image_read :: "string \<Rightarrow> 'e + 'a"

fun and_then :: "'x + 'a \<Rightarrow> ('a \<Rightarrow> 'x + 'b) \<Rightarrow> 'x + 'b" where
  "and_then (Inl e) f = Inl e"
| "and_then (Inr x) f = f x"

fun library :: "'e + 'a \<Rightarrow> 'e error + 'a" where
  "library (Inl e) = Inl (LibraryError e)"
| "library (Inr x) = Inr x"

section \<open>numpy, as far as the code uses it\<close>

text \<open>\<open>a > c\<close> for an array and a number: the boolean array of the same shape.\<close>

definition greater :: "ndarray \<Rightarrow> rat \<Rightarrow> bool array" where
  "greater a c = \<lparr>shape = shape a, voxels = map (\<lambda>x. x > c) (voxels a)\<rparr>"

text \<open>\<open>a[m]\<close> for a boolean array \<open>m\<close> of the shape of \<open>a\<close>: the values of \<open>a\<close> where
  \<open>m\<close> is true, in order, as an array of one axis, of which the values are kept;
  IndexError when \<open>m\<close> has not the shape of \<open>a\<close>. The probability images of a
  segmentation are on the grid of the image segmented. (numpy accepts also an \<open>m\<close> whose
  shape is the beginning of the shape of \<open>a\<close> and selects whole sub-arrays; the model
  leaves this case out and raises IndexError there as well.)\<close>

definition boolean_index :: "ndarray \<Rightarrow> bool array \<Rightarrow> 'e error + rat list" where
  "boolean_index a m =
     (if shape m = shape a \<and> length (voxels m) = length (voxels a)
      then Inr (map fst (filter snd (zip (voxels a) (voxels m))))
      else Inl IndexError)"

text \<open>\<open>np.mean\<close>: NaN (\<open>None\<close>) on an empty array, with a warning and no raise.\<close>

definition np_mean :: "rat list \<Rightarrow> rat option" where
  "np_mean xs = (if xs = [] then None else Some (sum_list xs / of_nat (length xs)))"

definition first_index :: "('a \<Rightarrow> bool) \<Rightarrow> 'a list \<Rightarrow> nat" where
  "first_index P xs = length (takeWhile (\<lambda>x. \<not> P x) xs)"

text \<open>\<open>np.argmin\<close> of a list of floats: ValueError on the empty list; the index of the
  first NaN when there is one; otherwise the first index of the least value.\<close>

definition np_argmin :: "rat option list \<Rightarrow> 'e error + nat" where
  "np_argmin avg =
     (if avg = [] then Inl ValueError
      else if None \<in> set avg then Inr (first_index (\<lambda>x. x = None) avg)
      else Inr (first_index (\<lambda>x. x = Some (min_list (map the avg))) avg))"

text \<open>
  Broadcasting. The shorter shape is padded with ones on the left. Two axes go
  together when they are equal or one of them is 1, and the common axis is the other
  one; shapes with an axis that does not go together cannot be broadcast.
\<close>

definition pad :: "nat \<Rightarrow> nat list \<Rightarrow> nat list" where
  "pad r s = replicate (r - length s) 1 @ s"

fun broadcast_shape :: "nat list \<Rightarrow> nat list \<Rightarrow> nat list option" where
  "broadcast_shape [] [] = Some []"
| "broadcast_shape (a # as) (b # bs) =
     (if a = b \<or> b = 1 then map_option ((#) a) (broadcast_shape as bs)
      else if a = 1 then map_option ((#) b) (broadcast_shape as bs)
      else None)"
| "broadcast_shape as bs = None"

text \<open>The values of an array of shape \<open>s\<close> seen at the shape \<open>t\<close> it is broadcast to:
  along an axis that \<open>s\<close> and \<open>t\<close> share, each of the sub-arrays in turn; along an axis
  of length 1 in \<open>s\<close>, the one sub-array again and again.\<close>

fun broadcast_to :: "nat list \<Rightarrow> nat list \<Rightarrow> 'v list \<Rightarrow> 'v list" where
  "broadcast_to (d # ds) (t # ts) xs =
     (if d = t
      then concat (map (\<lambda>i. broadcast_to ds ts (take (prod_list ds) (drop (i * prod_list ds) xs)))
                     [0..<d])
      else concat (replicate t (broadcast_to ds ts xs)))"
| "broadcast_to ds ts xs = xs"

text \<open>\<open>operator.add\<close> on two arrays, which is numpy's \<open>+\<close>: the sum value by value of
  the two arrays broadcast to their common shape, and ValueError when the shapes cannot
  be broadcast. For two arrays of one shape this is the sum value by value.\<close>

definition add :: "ndarray \<Rightarrow> ndarray \<Rightarrow> 'e error + ndarray" where
  "add a b =
     (if shape a = shape b
      then Inr \<lparr>shape = shape a, voxels = map2 (+) (voxels a) (voxels b)\<rparr>
      else
        let r = max (length (shape a)) (length (shape b))
        in case broadcast_shape (pad r (shape a)) (pad r (shape b)) of
             None \<Rightarrow> Inl ValueError
           | Some s \<Rightarrow>
               Inr \<lparr>shape = s,
                    voxels = map2 (+) (broadcast_to (pad r (shape a)) s (voxels a))
                                      (broadcast_to (pad r (shape b)) s (voxels b))\<rparr>)"

text \<open>\<open>functools.reduce(f, xs)\<close> with no initial value: TypeError on the empty list.\<close>

fun reduce_from :: "('a \<Rightarrow> 'a \<Rightarrow> 'x + 'a) \<Rightarrow> 'a \<Rightarrow> 'a list \<Rightarrow> 'x + 'a" where
  "reduce_from f acc [] = Inr acc"
| "reduce_from f acc (x # xs) = and_then (f acc x) (\<lambda>acc'. reduce_from f acc' xs)"

definition reduce :: "('a \<Rightarrow> 'a \<Rightarrow> 'e error + 'a) \<Rightarrow> 'a list \<Rightarrow> 'e error + 'a" where
  "reduce f xs = (case xs of [] \<Rightarrow> Inl TypeError | x # rest \<Rightarrow> reduce_from f x rest)"

section \<open>Binary64 arithmetic, as far as the code uses it\<close>

text \<open>
  A binary64 number other than zero is \<open>m * 2\<^sup>e\<^sup>-\<^sup>5\<^sup>2\<close> for an integer \<open>m\<close> of at most 53
  bits and an exponent \<open>e\<close> of at least \<open>-1022\<close>. An operation returns the binary64
  number nearest to the exact result, and of two equally near the one with even \<open>m\<close>.
  The numbers here are at most \<open>len(data)\<close>, far below the largest binary64 number, so
  the model has no overflow.
\<close>

text \<open>The exponent of a positive number \<open>x\<close>: the \<open>e\<close> with \<open>2\<^sup>e \<le> x < 2\<^sup>e\<^sup>+\<^sup>1\<close>.\<close>

definition exponent :: "rat \<Rightarrow> int" where
  "exponent x = (if 1 \<le> x then bitlen \<lfloor>x\<rfloor> - 1 else - bitlen (\<lceil>1 / x\<rceil> - 1))"

text \<open>The nearest integer, the even one of two equally near.\<close>

definition round_half_even :: "rat \<Rightarrow> int" where
  "round_half_even m =
     (let f = \<lfloor>m\<rfloor>; r = m - of_int f
      in if r < 1 / 2 then f
         else if r > 1 / 2 then f + 1
         else if even f then f
         else f + 1)"

definition round_binary64 :: "rat \<Rightarrow> rat" where
  "round_binary64 x =
     (if x = 0 then 0
      else
        let e = max (exponent \<bar>x\<bar>) (- 1022);
            q = 2 powi (e - 52)
        in of_int (round_half_even (x / q)) * q)"

text \<open>\<open>len(data) * prob\<close> for a binary64 \<open>prob\<close>: the integer is converted to binary64 and
  the product is rounded. For \<open>prob\<close> the Python integer 0 or 1 the product is an integer
  that \<open>np.floor\<close> converts to binary64, with the same value.\<close>

definition float_mul :: "nat \<Rightarrow> rat \<Rightarrow> rat" where
  "float_mul n prob = round_binary64 (round_binary64 (of_nat n) * prob)"

section \<open>csf.py: \<open>csf_mask\<close>\<close>

text \<open>Lines 47 to 49. \<open>hasattr(x, 'get_data')\<close> is true of a nibabel image and false
  of an ANTsPy image and of \<open>None\<close>: both objects are converted when both are nibabel
  images, and neither is otherwise.\<close>

definition to_antspy ::
  "('n, 'a, 'e) ants \<Rightarrow> ('n, 'a) image \<Rightarrow> ('n, 'a) image option
     \<Rightarrow> 'e error + ('n, 'a) image \<times> ('n, 'a) image option" where
  "to_antspy L img brain_mask =
     (case (img, brain_mask) of
        (Nifti1Image i, Some (Nifti1Image m)) \<Rightarrow>
          and_then (library (from_nibabel L i)) (\<lambda>i'.
          and_then (library (from_nibabel L m)) (\<lambda>m'.
          Inr (ANTsImage i', Some (ANTsImage m'))))
      | _ \<Rightarrow> Inr (img, brain_mask))"

text \<open>Line 51: the list comprehension; the first failing element raises.\<close>

fun avg_intensity :: "ndarray \<Rightarrow> ndarray list \<Rightarrow> 'e error + rat option list" where
  "avg_intensity a [] = Inr []"
| "avg_intensity a (p # ps) =
     and_then (boolean_index a (greater p (1 / 2))) (\<lambda>sel.
     and_then (avg_intensity a ps) (\<lambda>rest.
     Inr (np_mean sel # rest)))"

text \<open>In the words of the specification: the intensities of exactly those voxels of the
  image \<open>a\<close> whose membership \<open>p\<close> in a class exceeds 0.5. Line 51 selects them with a
  boolean index; the two are compared below.\<close>

definition voxels_above :: "ndarray \<Rightarrow> ndarray \<Rightarrow> rat list" where
  "voxels_above a p =
     map ((!) (voxels a)) (filter (\<lambda>v. voxels p ! v > 1 / 2) [0..<length (voxels a)])"

text \<open>Line 55: \<open>(csf > csf_thresh).astype(np.float32)\<close>.\<close>

definition threshold :: "rat \<Rightarrow> ndarray \<Rightarrow> ndarray" where
  "threshold csf_thresh csf =
     \<lparr>shape = shape csf, voxels = map (\<lambda>p. if p > csf_thresh then 1 else 0) (voxels csf)\<rparr>"

text \<open>Lines 50 to 53, on the objects that lines 47 to 49 leave: the array \<open>csf\<close> of
  line 53. A nibabel image has no method \<open>kmeans_segmentation\<close>: AttributeError.\<close>

definition csf_membership ::
  "('n, 'a, 'e) ants \<Rightarrow> ('n, 'a) image \<Rightarrow> ('n, 'a) image option \<Rightarrow> rat \<Rightarrow> 'e error + ndarray" where
  "csf_membership L img brain_mask mrf =
     (case img of
        Nifti1Image n \<Rightarrow> Inl AttributeError
      | ANTsImage a \<Rightarrow>
          and_then (library (kmeans_segmentation L a 3 brain_mask mrf)) (\<lambda>probabilityimages.
          and_then (avg_intensity (numpy L a) (map (numpy L) probabilityimages)) (\<lambda>avg.
          and_then (np_argmin avg) (\<lambda>csf_arg.
          Inr (numpy L (probabilityimages ! csf_arg))))))"

text \<open>Lines 50 to 56.\<close>

definition segment_csf ::
  "('n, 'a, 'e) ants \<Rightarrow> ('n, 'a) image \<Rightarrow> ('n, 'a) image option \<Rightarrow> rat \<Rightarrow> bool \<Rightarrow> rat
     \<Rightarrow> 'e error + ndarray" where
  "segment_csf L img brain_mask csf_thresh return_prob mrf =
     and_then (csf_membership L img brain_mask mrf) (\<lambda>csf.
     Inr (if \<not> return_prob then threshold csf_thresh csf else csf))"

definition csf_mask ::
  "('n, 'a, 'e) ants \<Rightarrow> ('n, 'a) image \<Rightarrow> ('n, 'a) image option \<Rightarrow> rat \<Rightarrow> bool \<Rightarrow> rat
     \<Rightarrow> 'e error + ndarray" where
  "csf_mask L img brain_mask csf_thresh return_prob mrf =
     and_then (to_antspy L img brain_mask) (\<lambda>(img', brain_mask').
     segment_csf L img' brain_mask' csf_thresh return_prob mrf)"

text \<open>The call \<open>csf_mask(imgn, maskn)\<close> of line 83, with the defaults of the signature:
  \<open>csf_thresh=0.9\<close>, \<open>return_prob=False\<close>, \<open>mrf=0.25\<close>.\<close>

definition csf_mask_defaults ::
  "('n, 'a, 'e) ants \<Rightarrow> ('n, 'a) image \<Rightarrow> ('n, 'a) image option \<Rightarrow> 'e error + ndarray" where
  "csf_mask_defaults L img brain_mask = csf_mask L img brain_mask (9 / 10) False (1 / 4)"

section \<open>csf.py: \<open>csf_mask_intersection\<close>\<close>

text \<open>
  What the function does to the world, in the order it does it: the directory listings
  (\<open>glob\<close>), the reads of image files (\<open>ants.image_read\<close>) and the messages handed
  to \<open>logger.info\<close>. The file system is the parameter \<open>glob\<close>, from a pattern to the
  paths that match it, in the arbitrary order of \<open>glob.glob\<close>. \<open>io.split_filename\<close>
  belongs to a module of the package that is not among the sources; it is the parameter
  \<open>split_filename\<close>, from a path to (directory, base name, extension).
\<close>

datatype event = Glob string | ImageRead string | LogInfo string

text \<open>The argument \<open>masks\<close> and, after line 76, each element of the list \<open>masks\<close>:
  a \<open>str\<close>, or an object (an image or \<open>None\<close>).\<close>

datatype ('n, 'a) mask_arg = Str string | Obj "('n, 'a) image option"

text \<open>\<open>os.path.join\<close> of two components (POSIX).\<close>

definition path_join :: "string \<Rightarrow> string \<Rightarrow> string" where
  "path_join a b =
     (if b \<noteq> [] \<and> hd b = CHR ''/'' then b
      else if a = [] \<or> last a = CHR ''/'' then a @ b
      else a @ ''/'' @ b)"

text \<open>The format \<open>{:d}\<close> of a natural number.\<close>

function string_of_nat :: "nat \<Rightarrow> string" where
  "string_of_nat n =
     (if n < 10 then [''0123456789'' ! n]
      else string_of_nat (n div 10) @ [''0123456789'' ! (n mod 10)])"
  by pat_completeness auto
termination
  by (relation "measure id") auto

text \<open>Line 80: \<open>'Creating CSF mask for image {} ({:d}/{:d})'.format(base, i+1, len(data))\<close>;
  here \<open>k\<close> is the value of \<open>i+1\<close> and \<open>n\<close> that of \<open>len(data)\<close>.\<close>

definition progress_message :: "string \<Rightarrow> nat \<Rightarrow> nat \<Rightarrow> string" where
  "progress_message base k n =
     ''Creating CSF mask for image '' @ base @ '' ('' @ string_of_nat k @ ''/''
       @ string_of_nat n @ '')''"

text \<open>Lines 79 to 83, one pass of the loop body: its events, and the mask appended to
  \<open>csf\<close> or the error that leaves the loop.\<close>

definition loop_body ::
  "('n, 'a, 'e) ants \<Rightarrow> (string \<Rightarrow> string \<times> string \<times> string) \<Rightarrow> nat \<Rightarrow> nat
     \<Rightarrow> string \<Rightarrow> ('n, 'a) mask_arg \<Rightarrow> ('e error + ndarray) \<times> event list" where
  "loop_body L split_filename len_data i img mask' =
     (let base = fst (snd (split_filename img));
          events = [LogInfo (progress_message base (i + 1) len_data), ImageRead img]
      in case library (image_read L img) of
           Inl e \<Rightarrow> (Inl e, events)
         | Inr imgn \<Rightarrow>
             (case mask' of
                Str path \<Rightarrow>
                  (case library (image_read L path) of
                     Inl e \<Rightarrow> (Inl e, events @ [ImageRead path])
                   | Inr maskn \<Rightarrow>
                       (csf_mask_defaults L (ANTsImage imgn) (Some (ANTsImage maskn)),
                        events @ [ImageRead path]))
              | Obj maskn \<Rightarrow> (csf_mask_defaults L (ANTsImage imgn) maskn, events)))"

text \<open>Lines 77 to 83: the loop over \<open>enumerate(zip(data, masks))\<close>, from index \<open>i\<close>
  with the list \<open>csf\<close> built so far.\<close>

fun csf_loop ::
  "('n, 'a, 'e) ants \<Rightarrow> (string \<Rightarrow> string \<times> string \<times> string) \<Rightarrow> nat \<Rightarrow> nat
     \<Rightarrow> (string \<times> ('n, 'a) mask_arg) list \<Rightarrow> ndarray list
     \<Rightarrow> ('e error + ndarray list) \<times> event list" where
  "csf_loop L split_filename len_data i [] csf = (Inr csf, [])"
| "csf_loop L split_filename len_data i ((img, mask') # rest) csf =
     (case loop_body L split_filename len_data i img mask' of
        (Inl e, events) \<Rightarrow> (Inl e, events)
      | (Inr c, events) \<Rightarrow>
          (case csf_loop L split_filename len_data (i + 1) rest (csf @ [c]) of
             (r, events') \<Rightarrow> (r, events @ events')))"

text \<open>Lines 84 to 87: \<open>reduce(add, csf)\<close>, then the array of zeros of the shape of
  \<open>csf_sum\<close>, set to 1 where \<open>csf_sum >= np.floor(len(data) * prob)\<close>.\<close>

definition intersect :: "nat \<Rightarrow> rat \<Rightarrow> ndarray list \<Rightarrow> 'e error + ndarray" where
  "intersect len_data prob csf =
     and_then (reduce add csf) (\<lambda>csf_sum.
     Inr \<lparr>shape = shape csf_sum,
          voxels = map (\<lambda>s. if s \<ge> of_int \<lfloor>float_mul len_data prob\<rfloor> then 1 else 0)
                     (voxels csf_sum)\<rparr>)"

text \<open>\<open>sorted(glob(os.path.join(dir, '*.nii*')))\<close>, the right-hand side of line 75 and,
  for a directory of masks, of line 76. Python compares strings by code point; the model
  compares the bytes of the path, which is the same order.\<close>

definition nii_files :: "(string \<Rightarrow> string list) \<Rightarrow> string \<Rightarrow> string list" where
  "nii_files glob dir = sort (glob (path_join dir ''*.nii*''))"

text \<open>Line 76: the list \<open>masks\<close>, given \<open>len(data)\<close>.\<close>

definition mask_list ::
  "(string \<Rightarrow> string list) \<Rightarrow> nat \<Rightarrow> ('n, 'a) mask_arg \<Rightarrow> ('n, 'a) mask_arg list" where
  "mask_list glob len_data masks =
     (case masks of
        Str mask_dir \<Rightarrow> map Str (nii_files glob mask_dir)
      | Obj m \<Rightarrow> replicate len_data masks)"

text \<open>The events of lines 75 and 76.\<close>

definition listing_events :: "string \<Rightarrow> ('n, 'a) mask_arg \<Rightarrow> event list" where
  "listing_events img_dir masks =
     Glob (path_join img_dir ''*.nii*'') #
     (case masks of Str mask_dir \<Rightarrow> [Glob (path_join mask_dir ''*.nii*'')] | Obj m \<Rightarrow> [])"

definition csf_mask_intersection ::
  "('n, 'a, 'e) ants \<Rightarrow> (string \<Rightarrow> string list) \<Rightarrow> (string \<Rightarrow> string \<times> string \<times> string)
     \<Rightarrow> string \<Rightarrow> ('n, 'a) mask_arg \<Rightarrow> rat \<Rightarrow> ('e error + ndarray) \<times> event list" where
  "csf_mask_intersection L glob split_filename img_dir masks prob =
     (if \<not> (0 \<le> prob \<and> prob \<le> 1) then (Inl (NormalizationError prob), [])
      else
        let data = nii_files glob img_dir;
            masks' = mask_list glob (length data) masks
        in case csf_loop L split_filename (length data) 0 (zip data masks') [] of
             (Inl e, events) \<Rightarrow> (Inl e, listing_events img_dir masks @ events)
           | (Inr csf, events) \<Rightarrow>
               (intersect (length data) prob csf, listing_events img_dir masks @ events))"

text \<open>
  Two notions to state results with. The per-image masks of a run are the list
  \<open>csf\<close> as the loop of lines 77 to 83 leaves it, or the error that left the loop. The
  events of a run whose loop makes \<open>k\<close> passes without error are the listings, and
  then for each pass, in turn, the progress message, the read of the image and, when
  the mask is a path, the read of the mask.
\<close>

definition per_image_masks ::
  "('n, 'a, 'e) ants \<Rightarrow> (string \<Rightarrow> string list) \<Rightarrow> (string \<Rightarrow> string \<times> string \<times> string)
     \<Rightarrow> string \<Rightarrow> ('n, 'a) mask_arg \<Rightarrow> 'e error + ndarray list" where
  "per_image_masks L glob split_filename img_dir masks =
     (let data = nii_files glob img_dir
      in fst (csf_loop L split_filename (length data) 0
                (zip data (mask_list glob (length data) masks)) []))"

definition pass_events ::
  "(string \<Rightarrow> string \<times> string \<times> string) \<Rightarrow> nat \<Rightarrow> nat \<Rightarrow> string \<Rightarrow> ('n, 'a) mask_arg
     \<Rightarrow> event list" where
  "pass_events split_filename len_data i img mask' =
     [LogInfo (progress_message (fst (snd (split_filename img))) (i + 1) len_data),
      ImageRead img] @
     (case mask' of Str path \<Rightarrow> [ImageRead path] | Obj m \<Rightarrow> [])"

definition run_events ::
  "(string \<Rightarrow> string list) \<Rightarrow> (string \<Rightarrow> string \<times> string \<times> string) \<Rightarrow> string
     \<Rightarrow> ('n, 'a) mask_arg \<Rightarrow> nat \<Rightarrow> event list" where
  "run_events glob split_filename img_dir masks k =
     (let data = nii_files glob img_dir;
          masks' = mask_list glob (length data) masks
      in listing_events img_dir masks @
         concat (map (\<lambda>i. pass_events split_filename (length data) i (data ! i) (masks' ! i))
                   [0..<k]))"

text \<open>The messages logged by a run, in order.\<close>

fun info :: "event \<Rightarrow> string list" where
  "info (LogInfo message) = [message]"
| "info e = []"

definition log_messages :: "event list \<Rightarrow> string list" where
  "log_messages events = concat (map info events)"

section \<open>preprocess.py: \<open>main\<close>\<close>

text \<open>
  Python's exceptions, as far as \<open>except Exception\<close> tells them apart: the instances of
  \<open>Exception\<close> (with any payload), and the classes that derive from \<open>BaseException\<close>
  only. \<open>SystemExit\<close> carries its exit status.
\<close>

datatype 'x exception = Exception 'x | KeyboardInterrupt | SystemExit int | GeneratorExit

datatype level = WARNING | INFO | DEBUG

text \<open>The namespace that \<open>parse_args\<close> returns.\<close>

record 'o args =
  img_dir :: string
  mask_dir :: string
  out_dir :: string
  resolution :: "int list"
  orientation :: string
  n4_opts :: "'o option"
  verbosity :: nat

datatype 'x outcome = Return int | Raise "'x exception"

text \<open>What a run of \<open>main\<close> leaves: how it ends, the level given to
  \<open>logging.basicConfig\<close> when that call is reached, and the exceptions handed to
  \<open>logger.exception\<close>, which logs the message with the traceback.\<close>

record 'x run =
  outcome :: "'x outcome"
  basicConfig :: "level option"
  logged_exceptions :: "'x list"

text \<open>
  Lines 49 to 64. \<open>parse_args\<close> is argparse on the command line: the namespace, or the
  status of the \<open>SystemExit\<close> it raises (2 on a usage error, 0 after \<open>--help\<close>).
  \<open>preprocess\<close> is the function of \<open>intensity_normalization.utilities.preprocess\<close>, a
  module that is not among the sources: it returns, or raises.
\<close>

definition main ::
  "(string list \<Rightarrow> int + 'o args)
     \<Rightarrow> (string \<Rightarrow> string \<Rightarrow> string \<Rightarrow> int list \<Rightarrow> string \<Rightarrow> 'o option \<Rightarrow> 'x exception + unit)
     \<Rightarrow> string list \<Rightarrow> 'x run" where
  "main parse_args preprocess argv =
     (case parse_args argv of
        Inl status \<Rightarrow>
          \<lparr>outcome = Raise (SystemExit status), basicConfig = None, logged_exceptions = []\<rparr>
      | Inr args \<Rightarrow>
          (let level = (if verbosity args = 1 then INFO
                        else if verbosity args \<ge> 2 then DEBUG
                        else WARNING)
           in case preprocess (img_dir args) (mask_dir args) (out_dir args) (resolution args)
                     (orientation args) (n4_opts args) of
                Inr u \<Rightarrow> \<lparr>outcome = Return 0, basicConfig = Some level, logged_exceptions = []\<rparr>
              | Inl (Exception e) \<Rightarrow>
                  \<lparr>outcome = Return 1, basicConfig = Some level, logged_exceptions = [e]\<rparr>
              | Inl b \<Rightarrow> \<lparr>outcome = Raise b, basicConfig = Some level, logged_exceptions = []\<rparr>))"

section \<open>A small cohort, for concrete runs\<close>

text \<open>
  A stand-in for the libraries and the file system, on which the functions above can be
  run. An image is its array, of one axis. The segmentation puts a voxel in the first
  class when its intensity is below 3, in the second when it is below 6 and in the third
  otherwise, with membership 19/20 in its class and 1/40 in the two others; it refuses a
  brain mask that is a nibabel image.
\<close>

definition toy_class :: "(rat \<Rightarrow> bool) \<Rightarrow> ndarray \<Rightarrow> ndarray" where
  "toy_class P a =
     \<lparr>shape = shape a, voxels = map (\<lambda>x. if P x then 19 / 20 else 1 / 40) (voxels a)\<rparr>"

text \<open>The files that can be read. \<open>/f/b.nii\<close> is listed below and cannot be read.\<close>

definition toy_read :: "string \<Rightarrow> string + ndarray" where
  "toy_read path =
     (if path \<in> {''/d/a.nii'', ''/e/a.nii'', ''/e/b.nii'', ''/e/c.nii'', ''/f/a.nii'', ''/f/c.nii''}
      then Inr (vector [1, 4, 7])
      else if path = ''/d/b.nii'' then Inr (vector [2, 5, 8])
      else if path \<in> {''/e/d.nii'', ''/e/e.nii''} then Inr (vector [4, 1, 7])
      else if path = ''/m/a.nii'' then Inr (vector [1, 1, 1])
      else Inl ''No such file'')"

definition toy_ants :: "(ndarray, ndarray, string) ants" where
  "toy_ants =
     \<lparr>from_nibabel = Inr,
      kmeans_segmentation = (\<lambda>a k kmask mrf.
        case kmask of
          Some (Nifti1Image n) \<Rightarrow> Inl ''kmask is not an ANTsImage''
        | _ \<Rightarrow>
            Inr [toy_class (\<lambda>x. x < 3) a, toy_class (\<lambda>x. 3 \<le> x \<and> x < 6) a,
                 toy_class (\<lambda>x. 6 \<le> x) a]),
      numpy = (\<lambda>a. a),
      image_read = toy_read\<rparr>"

text \<open>The directory \<open>/d\<close> holds two images, \<open>/e\<close> five, \<open>/f\<close> three, \<open>/m\<close> one brain
  mask, and any other directory nothing.\<close>

definition toy_glob :: "string \<Rightarrow> string list" where
  "toy_glob pattern =
     (if pattern = ''/d/*.nii*'' then [''/d/b.nii'', ''/d/a.nii'']
      else if pattern = ''/e/*.nii*''
        then [''/e/c.nii'', ''/e/a.nii'', ''/e/e.nii'', ''/e/b.nii'', ''/e/d.nii'']
      else if pattern = ''/f/*.nii*'' then [''/f/a.nii'', ''/f/c.nii'', ''/f/b.nii'']
      else if pattern = ''/m/*.nii*'' then [''/m/a.nii'']
      else [])"

definition toy_split_filename :: "string \<Rightarrow> string \<times> string \<times> string" where
  "toy_split_filename path =
     (let file = rev (takeWhile (\<lambda>c. c \<noteq> CHR ''/'') (rev path))
      in (take (length path - length file - 1) path,
          takeWhile (\<lambda>c. c \<noteq> CHR ''.'') file,
          dropWhile (\<lambda>c. c \<noteq> CHR ''.'') file))"

text \<open>
  An image of two voxels. A voxel has membership above 0.5 in one class at most, so one
  of the three classes of a two-voxel image has no such voxel, whatever the segmentation
  returns; here it is the second class.
\<close>

definition two_voxel_ants :: "(ndarray, ndarray, string) ants" where
  "two_voxel_ants =
     \<lparr>from_nibabel = Inr,
      kmeans_segmentation = (\<lambda>a k kmask mrf.
        Inr [vector [9 / 10, 0], vector [1 / 10, 1 / 10], vector [0, 9 / 10]]),
      numpy = (\<lambda>a. a),
      image_read = toy_read\<rparr>"

text \<open>The binary64 numbers written \<open>0.6\<close> and \<open>0.58\<close> in Python, and the result of
  \<open>1/3\<close>.\<close>

definition float_0_6 :: rat where
  "float_0_6 = 5404319552844595 / 2 ^ 53"

definition float_0_58 :: rat where
  "float_0_58 = 5224175567749775 / 2 ^ 53"

definition float_third :: rat where
  "float_third = 6004799503160661 / 2 ^ 54"

text \<open>A command line that parses, any other being a usage error.\<close>

definition toy_parse_args :: "string list \<Rightarrow> int + unit args" where
  "toy_parse_args argv =
     (if argv = [''-i'', ''in'', ''-m'', ''masks'', ''-o'', ''out'']
      then Inr \<lparr>img_dir = ''in'', mask_dir = ''masks'', out_dir = ''out'',
                resolution = [1, 1, 1], orientation = ''RAI'', n4_opts = None, verbosity = 0\<rparr>
      else Inl 2)"

section \<open>Results and errors\<close>

lemma and_then_eq_Inr: "and_then m f = Inr y \<longleftrightarrow> (\<exists>x. m = Inr x \<and> f x = Inr y)"
  by (cases m) auto

lemma and_then_eq_Inl: "and_then m f = Inl e \<longleftrightarrow> m = Inl e \<or> (\<exists>x. m = Inr x \<and> f x = Inl e)"
  by (cases m) auto

lemma library_eq_Inr: "library m = Inr x \<longleftrightarrow> m = Inr x"
  by (cases m) auto

lemma library_eq_Inl: "library m = Inl e \<longleftrightarrow> (\<exists>x. m = Inl x \<and> e = LibraryError x)"
  by (cases m) auto

section \<open>\<open>csf_mask\<close>: the returned array\<close>

lemma shape_threshold: "shape (threshold t csf) = shape csf"
  by (simp add: threshold_def)

lemma length_threshold: "length (voxels (threshold t csf)) = length (voxels csf)"
  by (simp add: threshold_def)

lemma nth_threshold:
  "v < length (voxels csf) \<Longrightarrow>
     voxels (threshold t csf) ! v = (if voxels csf ! v > t then 1 else 0)"
  by (simp add: threshold_def)

lemma threshold_binary: "set (voxels (threshold t csf)) \<subseteq> {0, 1}"
  by (auto simp: threshold_def)

lemma csf_mask_Inr:
  "csf_mask L img brain_mask csf_thresh return_prob mrf = Inr out \<longleftrightarrow>
     (\<exists>img' brain_mask' csf. to_antspy L img brain_mask = Inr (img', brain_mask') \<and>
        csf_membership L img' brain_mask' mrf = Inr csf \<and>
        out = (if \<not> return_prob then threshold csf_thresh csf else csf))"
  by (auto simp: csf_mask_def segment_csf_def and_then_eq_Inr)

lemma csf_mask_defaults_binary:
  "csf_mask_defaults L img brain_mask = Inr c \<Longrightarrow> set (voxels c) \<subseteq> {0, 1}"
  using threshold_binary by (auto simp: csf_mask_defaults_def csf_mask_Inr)

text \<open>
  Claim C5. A mask that \<open>csf_mask\<close> returns has the shape and the voxels of the CSF
  membership map of line 53. With \<open>return_prob\<close> true it is that map, unchanged. With
  \<open>return_prob\<close> false every voxel of it is 1 where the membership is above
  \<open>csf_thresh\<close> and 0 elsewhere, so that all its values are 0 or 1. The call with the
  defaults of the signature thresholds at 0.9.
\<close>

theorem csf_mask_thresholding:
  assumes "csf_mask L img brain_mask csf_thresh return_prob mrf = Inr out"
  shows "\<exists>img' brain_mask' csf.
           to_antspy L img brain_mask = Inr (img', brain_mask') \<and>
           csf_membership L img' brain_mask' mrf = Inr csf \<and>
           shape out = shape csf \<and>
           length (voxels out) = length (voxels csf) \<and>
           (return_prob \<longrightarrow> out = csf) \<and>
           (\<not> return_prob \<longrightarrow>
              (\<forall>v<length (voxels csf).
                 voxels out ! v = (if voxels csf ! v > csf_thresh then 1 else 0)) \<and>
              set (voxels out) \<subseteq> {0, 1}) \<and>
           csf_mask_defaults L img brain_mask = csf_mask L img brain_mask (9 / 10) False (1 / 4)"
proof -
  from assms obtain img' brain_mask' csf where
    conv: "to_antspy L img brain_mask = Inr (img', brain_mask')" and
    memb: "csf_membership L img' brain_mask' mrf = Inr csf" and
    out: "out = (if \<not> return_prob then threshold csf_thresh csf else csf)"
    unfolding csf_mask_Inr by blast
  have "shape out = shape csf"
    by (simp add: out shape_threshold)
  moreover have "length (voxels out) = length (voxels csf)"
    by (simp add: out length_threshold)
  moreover have "return_prob \<longrightarrow> out = csf"
    by (simp add: out)
  moreover have "\<not> return_prob \<longrightarrow>
      (\<forall>v<length (voxels csf). voxels out ! v = (if voxels csf ! v > csf_thresh then 1 else 0)) \<and>
      set (voxels out) \<subseteq> {0, 1}"
    using threshold_binary [of csf_thresh csf] by (simp add: out nth_threshold)
  moreover have "csf_mask_defaults L img brain_mask = csf_mask L img brain_mask (9 / 10) False (1 / 4)"
    by (simp add: csf_mask_defaults_def)
  ultimately show ?thesis
    using conv memb by blast
qed

theorem csf_mask_thresholding_witness:
  "csf_mask toy_ants (ANTsImage (vector [1, 4, 7])) None (9 / 10) False (1 / 4) =
     Inr (vector [1, 0, 0]) \<and>
   csf_mask toy_ants (ANTsImage (vector [1, 4, 7])) None (9 / 10) True (1 / 4) =
     Inr (vector [19 / 20, 1 / 40, 1 / 40]) \<and>
   csf_membership toy_ants (ANTsImage (vector [1, 4, 7])) None (1 / 4) =
     Inr (vector [19 / 20, 1 / 40, 1 / 40]) \<and>
   shape (vector [1, 0, 0 :: rat]) = shape (vector [19 / 20, 1 / 40, 1 / 40 :: rat]) \<and>
   set (voxels (vector [1, 0, 0 :: rat])) \<subseteq> {0, 1}"
proof -
  have h: "csf_mask toy_ants (ANTsImage (vector [1, 4, 7])) None (9 / 10) False (1 / 4) =
      Inr (vector [1, 0, 0])"
    by code_simp
  have h': "csf_mask toy_ants (ANTsImage (vector [1, 4, 7])) None (9 / 10) True (1 / 4) =
      Inr (vector [19 / 20, 1 / 40, 1 / 40])"
    by code_simp
  have m: "csf_membership toy_ants (ANTsImage (vector [1, 4, 7])) None (1 / 4) =
      Inr (vector [19 / 20, 1 / 40, 1 / 40])"
    by code_simp
  have conv: "to_antspy toy_ants (ANTsImage (vector [1, 4, 7])) None =
      Inr (ANTsImage (vector [1, 4, 7]), None)"
    by code_simp
  from csf_mask_thresholding [OF h] conv m
  have "shape (vector [1, 0, 0 :: rat]) = shape (vector [19 / 20, 1 / 40, 1 / 40 :: rat]) \<and>
        set (voxels (vector [1, 0, 0 :: rat])) \<subseteq> {0, 1}"
    by auto
  with h h' m show ?thesis by blast
qed

section \<open>\<open>csf_mask\<close>: the conversion of the inputs\<close>

lemma to_antspy_other:
  "\<not> (\<exists>n m. img = Nifti1Image n \<and> brain_mask = Some (Nifti1Image m)) \<Longrightarrow>
     to_antspy L img brain_mask = Inr (img, brain_mask)"
  by (auto simp: to_antspy_def split: image.splits option.splits)

text \<open>
  What lines 47 to 50 do with each combination of inputs. Two nibabel images are both
  converted by \<open>ants.from_nibabel\<close> and the segmentation runs on the two converted
  images. An ANTsPy image reaches the segmentation as it is, with whatever brain mask
  came with it, converted or not. A nibabel image whose brain mask is not a nibabel image
  is not converted, and line 50 calls a method that it does not have.
\<close>

lemma csf_mask_both_nibabel:
  assumes "from_nibabel L n = Inr a" and "from_nibabel L m = Inr b"
  shows "to_antspy L (Nifti1Image n) (Some (Nifti1Image m)) =
           Inr (ANTsImage a, Some (ANTsImage b)) \<and>
         csf_mask L (Nifti1Image n) (Some (Nifti1Image m)) csf_thresh return_prob mrf =
           segment_csf L (ANTsImage a) (Some (ANTsImage b)) csf_thresh return_prob mrf"
  using assms by (simp add: to_antspy_def csf_mask_def)

lemma csf_mask_antspy_image:
  "to_antspy L (ANTsImage a) brain_mask = Inr (ANTsImage a, brain_mask) \<and>
   csf_mask L (ANTsImage a) brain_mask csf_thresh return_prob mrf =
     segment_csf L (ANTsImage a) brain_mask csf_thresh return_prob mrf"
  by (simp add: to_antspy_def csf_mask_def)

lemma csf_mask_nibabel_image_only:
  assumes "\<forall>m. brain_mask \<noteq> Some (Nifti1Image m)"
  shows "to_antspy L (Nifti1Image n) brain_mask = Inr (Nifti1Image n, brain_mask) \<and>
         csf_mask L (Nifti1Image n) brain_mask csf_thresh return_prob mrf = Inl AttributeError"
proof -
  have "to_antspy L (Nifti1Image n) brain_mask = Inr (Nifti1Image n, brain_mask)"
    using assms by (intro to_antspy_other) auto
  then show ?thesis
    by (simp add: csf_mask_def segment_csf_def csf_membership_def)
qed

text \<open>
  Claim C6 does not hold of the code. The docstring of \<open>csf_mask\<close> accepts an ANTsPy
  image or a nibabel image for each of \<open>img\<close> and \<open>brain_mask\<close>, and the comment of
  line 46 says that nibabel inputs are converted; the guard of line 47 asks both to be
  nibabel images. On an ANTsPy image with a nibabel brain mask nothing is converted and
  the brain mask reaches the segmentation call as a nibabel image (the segmentation of
  the cohort below refuses it). On a nibabel image with an ANTsPy brain mask nothing is
  converted either, and the call raises AttributeError at line 50, before any
  segmentation.
\<close>

theorem csf_mask_mixed_inputs:
  "to_antspy toy_ants (ANTsImage (vector [1, 4, 7])) (Some (Nifti1Image (vector [1, 1, 1]))) =
     Inr (ANTsImage (vector [1, 4, 7]), Some (Nifti1Image (vector [1, 1, 1]))) \<and>
   csf_mask toy_ants (ANTsImage (vector [1, 4, 7])) (Some (Nifti1Image (vector [1, 1, 1])))
       (9 / 10) False (1 / 4) =
     Inl (LibraryError ''kmask is not an ANTsImage'') \<and>
   to_antspy toy_ants (Nifti1Image (vector [1, 4, 7])) (Some (ANTsImage (vector [1, 1, 1]))) =
     Inr (Nifti1Image (vector [1, 4, 7]), Some (ANTsImage (vector [1, 1, 1]))) \<and>
   csf_mask toy_ants (Nifti1Image (vector [1, 4, 7])) (Some (ANTsImage (vector [1, 1, 1])))
       (9 / 10) False (1 / 4) =
     Inl AttributeError \<and>
   csf_mask toy_ants (Nifti1Image (vector [1, 4, 7])) (Some (Nifti1Image (vector [1, 1, 1])))
       (9 / 10) False (1 / 4) =
     Inr (vector [1, 0, 0]) \<and>
   csf_mask toy_ants (ANTsImage (vector [1, 4, 7])) (Some (ANTsImage (vector [1, 1, 1])))
       (9 / 10) False (1 / 4) =
     Inr (vector [1, 0, 0])"
  by code_simp

section \<open>\<open>csf_mask\<close>: the class designated as CSF\<close>

lemma first_index_less: "\<exists>x\<in>set xs. P x \<Longrightarrow> first_index P xs < length xs"
  by (induction xs) (auto simp: first_index_def)

lemma first_index_holds: "\<exists>x\<in>set xs. P x \<Longrightarrow> P (xs ! first_index P xs)"
  by (induction xs) (auto simp: first_index_def)

lemma first_index_first: "j < first_index P xs \<Longrightarrow> \<not> P (xs ! j)"
  unfolding first_index_def
  using takeWhile_nth [of j "\<lambda>x. \<not> P x" xs] nth_mem [of j "takeWhile (\<lambda>x. \<not> P x) xs"]
  by (auto dest: set_takeWhileD)

lemma min_list_le: "x \<in> set xs \<Longrightarrow> min_list xs \<le> (x :: rat)"
  using min_list_Min [of xs] by (cases "xs = []") auto

lemma min_list_mem: "xs \<noteq> [] \<Longrightarrow> min_list xs \<in> set (xs :: rat list)"
  using min_list_Min [of xs] Min_in [of "set xs"] by simp

lemma np_argmin_numbers:
  assumes "np_argmin avg = Inr c" and "None \<notin> set avg"
  shows "c < length avg \<and> (\<forall>j<length avg. the (avg ! c) \<le> the (avg ! j)) \<and>
         (\<forall>j<c. the (avg ! c) < the (avg ! j))"
proof -
  let ?m = "min_list (map the avg)"
  let ?P = "\<lambda>x. x = Some ?m"
  from assms have ne: "avg \<noteq> []" and c: "c = first_index ?P avg"
    by (auto simp: np_argmin_def split: if_splits)
  have some: "\<And>x. x \<in> set avg \<Longrightarrow> x = Some (the x)"
    using assms(2) by (metis option.collapse)
  have "?m \<in> set (map the avg)"
    using ne by (intro min_list_mem) simp
  then obtain x where x: "x \<in> set avg" "the x = ?m"
    by auto
  with some have ex: "\<exists>x\<in>set avg. ?P x"
    by metis
  have lt: "c < length avg"
    unfolding c using ex by (rule first_index_less)
  have at: "avg ! c = Some ?m"
    unfolding c using ex by (rule first_index_holds)
  have le: "the (avg ! c) \<le> the (avg ! j)" if "j < length avg" for j
    using that at by (simp add: min_list_le)
  have strict: "the (avg ! c) < the (avg ! j)" if "j < c" for j
  proof -
    from that lt have j: "j < length avg" by simp
    have "avg ! j \<noteq> Some ?m"
      using that first_index_first [of j ?P avg] by (simp add: c)
    moreover have "avg ! j = Some (the (avg ! j))"
      using j some by simp
    ultimately have "the (avg ! j) \<noteq> ?m"
      by metis
    with le [OF j] at show ?thesis by simp
  qed
  from lt le strict show ?thesis by blast
qed

lemma np_argmin_nan:
  assumes "np_argmin avg = Inr c" and "None \<in> set avg"
  shows "c < length avg \<and> avg ! c = None \<and> (\<forall>j<c. avg ! j \<noteq> None)"
proof -
  from assms have c: "c = first_index (\<lambda>x. x = None) avg"
    by (auto simp: np_argmin_def split: if_splits)
  have ex: "\<exists>x\<in>set avg. x = None"
    using assms(2) by simp
  show ?thesis
    unfolding c
    using first_index_less [OF ex] first_index_holds [OF ex]
      first_index_first [of _ "\<lambda>x. x = None" avg]
    by blast
qed

lemma zip_filter_index:
  assumes "length m = length a"
  shows "map fst (filter snd (zip a (map f m))) = map ((!) a) (filter (\<lambda>v. f (m ! v)) [0..<length a])"
proof -
  have "zip a (map f m) = map (\<lambda>v. (a ! v, f (m ! v))) [0..<length a]"
    using assms by (intro nth_equalityI) simp_all
  then show ?thesis
    by (simp add: filter_map comp_def)
qed

lemma boolean_index_above:
  "boolean_index a (greater p (1 / 2)) = Inr sel \<longleftrightarrow>
     shape p = shape a \<and> length (voxels p) = length (voxels a) \<and> sel = voxels_above a p"
  by (auto simp: boolean_index_def greater_def voxels_above_def zip_filter_index)

lemma avg_intensity_Inr:
  "avg_intensity a ps = Inr avg \<longleftrightarrow>
     (\<forall>p\<in>set ps. shape p = shape a \<and> length (voxels p) = length (voxels a)) \<and>
     avg = map (\<lambda>p. np_mean (voxels_above a p)) ps"
  by (induction ps arbitrary: avg) (auto simp: and_then_eq_Inr boolean_index_above)


lemma csf_membership_Inr:
  "csf_membership (L :: ('n, 'a, 'e) ants) img brain_mask mrf = Inr csf \<longleftrightarrow>
     (\<exists>a ps c. img = ANTsImage a \<and> kmeans_segmentation L a 3 brain_mask mrf = Inr ps \<and>
        (\<forall>p\<in>set ps. shape (numpy L p) = shape (numpy L a) \<and>
           length (voxels (numpy L p)) = length (voxels (numpy L a))) \<and>
        np_argmin (map (\<lambda>p. np_mean (voxels_above (numpy L a) (numpy L p))) ps) =
          (Inr c :: 'e error + nat) \<and>
        csf = numpy L (ps ! c))"
  by (cases img)
    (auto simp: csf_membership_def and_then_eq_Inr library_eq_Inr avg_intensity_Inr comp_def)

lemma np_argmin_less: "np_argmin avg = (Inr c :: 'e error + nat) \<Longrightarrow> c < length avg"
  using np_argmin_numbers [of avg c] np_argmin_nan [of avg c] by (cases "None \<in> set avg") auto

lemma csf_membership_means:
  assumes "csf_membership (L :: ('n, 'a, 'e) ants) (ANTsImage a) brain_mask mrf = Inr csf"
    and "kmeans_segmentation L a 3 brain_mask mrf = Inr ps"
  shows "avg_intensity (numpy L a) (map (numpy L) ps) =
           (Inr (map (\<lambda>p. np_mean (voxels_above (numpy L a) (numpy L p))) ps)
              :: 'e error + rat option list)"
proof -
  from assms have "\<forall>p\<in>set ps. shape (numpy L p) = shape (numpy L a) \<and>
      length (voxels (numpy L p)) = length (voxels (numpy L a))"
    unfolding csf_membership_Inr by auto
  then show ?thesis
    by (simp add: avg_intensity_Inr comp_def)
qed

lemma csf_membership_nan_class:
  assumes "csf_membership (L :: ('n, 'a, 'e) ants) (ANTsImage a) brain_mask mrf = Inr csf"
    and "kmeans_segmentation L a 3 brain_mask mrf = Inr ps"
    and "\<exists>p\<in>set ps. voxels_above (numpy L a) (numpy L p) = []"
  shows "\<exists>c<length ps. csf = numpy L (ps ! c) \<and>
           voxels_above (numpy L a) (numpy L (ps ! c)) = [] \<and>
           (\<forall>j<c. voxels_above (numpy L a) (numpy L (ps ! j)) \<noteq> [])"
proof -
  let ?avg = "map (\<lambda>p. np_mean (voxels_above (numpy L a) (numpy L p))) ps"
  from assms(1,2) obtain c where
    arg: "np_argmin ?avg = (Inr c :: 'e error + nat)" and csf: "csf = numpy L (ps ! c)"
    unfolding csf_membership_Inr by auto
  from assms(3) have "None \<in> set ?avg"
    by (auto simp: np_mean_def image_iff)
  from np_argmin_nan [OF arg this] have
    c: "c < length ?avg" and at: "?avg ! c = None" and before: "\<forall>j<c. ?avg ! j \<noteq> None"
    by blast+
  from c have c: "c < length ps"
    by simp
  from at c have "voxels_above (numpy L a) (numpy L (ps ! c)) = []"
    by (simp add: np_mean_def split: if_splits)
  moreover have "voxels_above (numpy L a) (numpy L (ps ! j)) \<noteq> []" if "j < c" for j
    using before that c by (auto simp: np_mean_def)
  ultimately show ?thesis
    using c csf by blast
qed

text \<open>
  Claim C4, as amended. A mask that \<open>csf_mask\<close> returns comes from a segmentation into
  3 classes, and is the membership map of one of the classes returned, thresholded
  unless \<open>return_prob\<close> is set. The list of line 51 holds, for each class, \<open>np.mean\<close> of
  the intensities of exactly the voxels whose membership in the class exceeds 0.5. When
  every class has such a mean (a number, not the NaN of an empty selection), the class
  designated has a mean that is lowest, and is the first class with that mean.
\<close>

theorem csf_mask_darkest_class:
  assumes "csf_mask (L :: ('n, 'a, 'e) ants) img brain_mask csf_thresh return_prob mrf = Inr out"
  shows "\<exists>a brain_mask' ps c.
           to_antspy L img brain_mask = Inr (ANTsImage a, brain_mask') \<and>
           kmeans_segmentation L a 3 brain_mask' mrf = Inr ps \<and>
           avg_intensity (numpy L a) (map (numpy L) ps) =
             (Inr (map (\<lambda>p. np_mean (voxels_above (numpy L a) (numpy L p))) ps)
                :: 'e error + rat option list) \<and>
           c < length ps \<and>
           out = (if return_prob then numpy L (ps ! c) else threshold csf_thresh (numpy L (ps ! c))) \<and>
           (\<forall>ms. map (\<lambda>p. np_mean (voxels_above (numpy L a) (numpy L p))) ps = map Some ms \<longrightarrow>
              (\<forall>j<length ps. ms ! c \<le> ms ! j) \<and> (\<forall>j<c. ms ! c < ms ! j))"
proof -
  from assms obtain img' brain_mask' csf where
    conv: "to_antspy L img brain_mask = Inr (img', brain_mask')" and
    memb: "csf_membership L img' brain_mask' mrf = Inr csf" and
    out: "out = (if \<not> return_prob then threshold csf_thresh csf else csf)"
    unfolding csf_mask_Inr by blast
  let ?avg = "\<lambda>a ps. map (\<lambda>p. np_mean (voxels_above (numpy L a) (numpy L p))) ps"
  from memb obtain a ps c where
    img': "img' = ANTsImage a" and
    seg: "kmeans_segmentation L a 3 brain_mask' mrf = Inr ps" and
    arg: "np_argmin (?avg a ps) = (Inr c :: 'e error + nat)" and
    csf: "csf = numpy L (ps ! c)"
    unfolding csf_membership_Inr by blast
  have means: "avg_intensity (numpy L a) (map (numpy L) ps) = (Inr (?avg a ps) :: 'e error + rat option list)"
    using memb seg unfolding img' by (rule csf_membership_means)
  from np_argmin_less [OF arg] have c: "c < length ps"
    by simp
  have least: "(\<forall>j<length ps. ms ! c \<le> ms ! j) \<and> (\<forall>j<c. ms ! c < ms ! j)"
    if ms: "?avg a ps = map Some ms" for ms
  proof -
    have len: "length ms = length ps"
      using arg_cong [OF ms, of length] by simp
    have nn: "None \<notin> set (map Some ms)"
      by auto
    have arg': "np_argmin (map Some ms) = (Inr c :: 'e error + nat)"
      using arg by (simp only: ms)
    from np_argmin_numbers [OF arg' nn]
    have "(\<forall>j<length (map Some ms). the (map Some ms ! c) \<le> the (map Some ms ! j)) \<and>
          (\<forall>j<c. the (map Some ms ! c) < the (map Some ms ! j))"
      by blast
    then show ?thesis
      using c len by simp
  qed
  have "out = (if return_prob then numpy L (ps ! c) else threshold csf_thresh (numpy L (ps ! c)))"
    by (simp add: out csf)
  with conv img' seg means c least show ?thesis
    by blast
qed

theorem csf_mask_darkest_class_witness:
  "csf_mask toy_ants (ANTsImage (vector [1, 4, 7])) None (9 / 10) False (1 / 4) =
     Inr (vector [1, 0, 0]) \<and>
   kmeans_segmentation toy_ants (vector [1, 4, 7]) 3 None (1 / 4) =
     Inr [vector [19 / 20, 1 / 40, 1 / 40], vector [1 / 40, 19 / 20, 1 / 40],
          vector [1 / 40, 1 / 40, 19 / 20]] \<and>
   map (\<lambda>p. np_mean (voxels_above (vector [1, 4, 7]) p))
     [vector [19 / 20, 1 / 40, 1 / 40], vector [1 / 40, 19 / 20, 1 / 40],
      vector [1 / 40, 1 / 40, 19 / 20]] =
     map Some [1, 4, 7] \<and>
   (\<exists>c<3. [1, 4, 7 :: rat] ! c \<le> 1 \<and> [1, 4, 7 :: rat] ! c \<le> 4 \<and> [1, 4, 7 :: rat] ! c \<le> 7)"
proof -
  let ?a = "vector [1, 4, 7 :: rat]"
  let ?ps = "[vector [19 / 20, 1 / 40, 1 / 40], vector [1 / 40, 19 / 20, 1 / 40],
              vector [1 / 40, 1 / 40, 19 / 20 :: rat]]"
  have run: "csf_mask toy_ants (ANTsImage ?a) None (9 / 10) False (1 / 4) = Inr (vector [1, 0, 0])"
    by code_simp
  have seg: "kmeans_segmentation toy_ants ?a 3 None (1 / 4) = Inr ?ps"
    by code_simp
  have means: "map (\<lambda>p. np_mean (voxels_above ?a p)) ?ps = map Some [1, 4, 7]"
    by code_simp
  have conv: "to_antspy toy_ants (ANTsImage ?a) None = Inr (ANTsImage ?a, None)"
    by code_simp
  have np: "numpy toy_ants = (\<lambda>a. a)"
    by (simp add: toy_ants_def)
  from csf_mask_darkest_class [OF run] obtain a brain_mask' ps c where
    "to_antspy toy_ants (ANTsImage ?a) None = Inr (ANTsImage a, brain_mask')" and
    "kmeans_segmentation toy_ants a 3 brain_mask' (1 / 4) = Inr ps" and
    c: "c < length ps" and
    least: "\<forall>ms. map (\<lambda>p. np_mean (voxels_above (numpy toy_ants a) (numpy toy_ants p))) ps = map Some ms
       \<longrightarrow> (\<forall>j<length ps. ms ! c \<le> ms ! j) \<and> (\<forall>j<c. ms ! c < ms ! j)"
    by blast
  with conv seg have a: "a = ?a" and ps: "ps = ?ps"
    by auto
  from least means have all: "\<forall>j<3. [1, 4, 7 :: rat] ! c \<le> [1, 4, 7] ! j"
    by (simp add: a ps np)
  have "[1, 4, 7 :: rat] ! c \<le> [1, 4, 7] ! 0 \<and> [1, 4, 7 :: rat] ! c \<le> [1, 4, 7] ! 1 \<and>
      [1, 4, 7 :: rat] ! c \<le> [1, 4, 7] ! 2"
    using all [rule_format, of 0] all [rule_format, of 1] all [rule_format, of 2] by simp
  then have "[1, 4, 7 :: rat] ! c \<le> 1 \<and> [1, 4, 7 :: rat] ! c \<le> 4 \<and> [1, 4, 7 :: rat] ! c \<le> 7"
    by simp
  moreover have "c < 3"
    using c by (simp add: ps)
  ultimately have "\<exists>c<3. [1, 4, 7 :: rat] ! c \<le> 1 \<and> [1, 4, 7 :: rat] ! c \<le> 4 \<and> [1, 4, 7 :: rat] ! c \<le> 7"
    by blast
  with run seg means show ?thesis
    by blast
qed

text \<open>
  Claim C4, as stated, fails on an image of two voxels. The first class has mean 1, the
  third mean 9, and the second no voxel of membership above 0.5: its mean is NaN,
  \<open>np.argmin\<close> returns its index, and the mask returned is the thresholded
  membership of the second class, which is empty, where the class of lowest mean is the
  first.
\<close>

theorem csf_mask_empty_class:
  "kmeans_segmentation two_voxel_ants (vector [1, 9]) 3 None (1 / 4) =
     Inr [vector [9 / 10, 0], vector [1 / 10, 1 / 10], vector [0, 9 / 10]] \<and>
   avg_intensity (vector [1, 9]) [vector [9 / 10, 0], vector [1 / 10, 1 / 10], vector [0, 9 / 10]] =
     (Inr [Some 1, None, Some 9] :: string error + rat option list) \<and>
   csf_mask two_voxel_ants (ANTsImage (vector [1, 9])) None (9 / 10) True (1 / 4) =
     Inr (vector [1 / 10, 1 / 10]) \<and>
   csf_mask two_voxel_ants (ANTsImage (vector [1, 9])) None (9 / 10) False (1 / 4) =
     Inr (vector [0, 0])"
  by code_simp

section \<open>\<open>csf_mask_intersection\<close>: the loop\<close>

lemma loop_body_Inr:
  assumes "loop_body L sf n i img m = (Inr c, ev)"
  shows "ev = pass_events sf n i img m"
  using assms
  by (auto simp: loop_body_def pass_events_def Let_def split: sum.splits mask_arg.splits)

lemma loop_body_binary:
  assumes "fst (loop_body L sf n i img m) = Inr c"
  shows "set (voxels c) \<subseteq> {0, 1}"
proof -
  from assms have "\<exists>x y. csf_mask_defaults L x y = Inr c"
    by (auto simp: loop_body_def Let_def split: sum.splits mask_arg.splits)
  then show ?thesis
    using csf_mask_defaults_binary by blast
qed

lemma csf_loop_Inr:
  assumes "csf_loop L sf n i pairs csf = (Inr csf', ev)"
  shows "\<exists>cs. csf' = csf @ cs \<and> length cs = length pairs \<and>
           ev = concat (map (\<lambda>k. pass_events sf n (i + k) (fst (pairs ! k)) (snd (pairs ! k)))
                  [0..<length pairs]) \<and>
           (\<forall>k<length pairs. fst (loop_body L sf n (i + k) (fst (pairs ! k)) (snd (pairs ! k))) = Inr (cs ! k))"
  using assms
proof (induction pairs arbitrary: i csf ev)
  case Nil
  then show ?case by simp
next
  case (Cons p pairs)
  obtain img m where p: "p = (img, m)"
    by (cases p)
  from Cons.prems obtain c ev1 ev2 where
    body: "loop_body L sf n i img m = (Inr c, ev1)" and
    rest: "csf_loop L sf n (i + 1) pairs (csf @ [c]) = (Inr csf', ev2)" and
    ev: "ev = ev1 @ ev2"
    by (auto simp: p split: prod.splits sum.splits)
  from Cons.IH [OF rest] obtain cs where
    csf': "csf' = (csf @ [c]) @ cs" and len: "length cs = length pairs" and
    ev2: "ev2 = concat (map (\<lambda>k. pass_events sf n (i + 1 + k) (fst (pairs ! k)) (snd (pairs ! k)))
                  [0..<length pairs])" and
    each: "\<forall>k<length pairs. fst (loop_body L sf n (i + 1 + k) (fst (pairs ! k)) (snd (pairs ! k))) = Inr (cs ! k)"
    by blast
  have ev1: "ev1 = pass_events sf n i img m"
    using body by (rule loop_body_Inr)
  have shift: "map (\<lambda>k. pass_events sf n (i + k) (fst ((p # pairs) ! k)) (snd ((p # pairs) ! k)))
                 [0..<length (p # pairs)]
             = pass_events sf n i img m #
               map (\<lambda>k. pass_events sf n (i + 1 + k) (fst (pairs ! k)) (snd (pairs ! k))) [0..<length pairs]"
    by (simp add: upt_conv_Cons map_Suc_upt [symmetric] p del: upt_Suc)
  have all: "fst (loop_body L sf n (i + k) (fst ((p # pairs) ! k)) (snd ((p # pairs) ! k))) = Inr ((c # cs) ! k)"
    if "k < length (p # pairs)" for k
  proof (cases k)
    case 0
    then show ?thesis by (simp add: p body)
  next
    case (Suc k')
    with that each show ?thesis by simp
  qed
  have events: "ev = concat (map (\<lambda>k. pass_events sf n (i + k) (fst ((p # pairs) ! k))
      (snd ((p # pairs) ! k))) [0..<length (p # pairs)])"
    unfolding shift by (simp add: ev ev1 ev2)
  have "csf' = csf @ (c # cs) \<and> length (c # cs) = length (p # pairs)"
    by (simp add: csf' len)
  with events all show ?case
    by blast
qed

lemma csf_loop_Inl:
  assumes "csf_loop L sf n i pairs csf = (Inl e, ev)"
  shows "\<exists>k<length pairs. fst (loop_body L sf n (i + k) (fst (pairs ! k)) (snd (pairs ! k))) = Inl e"
  using assms
proof (induction pairs arbitrary: i csf ev)
  case Nil
  then show ?case by simp
next
  case (Cons p pairs)
  obtain img m where p: "p = (img, m)"
    by (cases p)
  show ?case
  proof (cases "fst (loop_body L sf n i img m)")
    case (Inl e')
    with Cons.prems have "e' = e"
      by (auto simp: p split: prod.splits sum.splits)
    with Inl show ?thesis
      by (intro exI [of _ 0]) (simp add: p)
  next
    case (Inr c)
    with Cons.prems obtain ev2 where "csf_loop L sf n (i + 1) pairs (csf @ [c]) = (Inl e, ev2)"
      by (auto simp: p split: prod.splits sum.splits)
    from Cons.IH [OF this] obtain k where
      "k < length pairs" "fst (loop_body L sf n (i + 1 + k) (fst (pairs ! k)) (snd (pairs ! k))) = Inl e"
      by blast
    then show ?thesis
      by (intro exI [of _ "Suc k"]) simp
  qed
qed





section \<open>\<open>csf_mask_intersection\<close>: the sum and the threshold\<close>

text \<open>Broadcasting repeats values and makes none.\<close>

lemma set_broadcast_to: "set (broadcast_to s t xs) \<subseteq> set xs"
proof (induction s t xs rule: broadcast_to.induct)
  case (1 d ds t ts xs)
  show ?case
  proof (cases "d = t")
    case True
    have "set (broadcast_to ds ts (take (prod_list ds) (drop (i * prod_list ds) xs))) \<subseteq> set xs"
      if "i \<in> set [0..<d]" for i
      using 1(1) [OF True that] set_take_subset [of "prod_list ds" "drop (i * prod_list ds) xs"]
        set_drop_subset [of "i * prod_list ds" xs]
      by blast
    then have "x \<in> set xs"
      if "i < d" and "x \<in> set (broadcast_to ds ts (take (prod_list ds) (drop (i * prod_list ds) xs)))"
      for i x
      using that by auto
    with True show ?thesis
      by auto
  next
    case False
    with 1(2) [OF False] show ?thesis
      by auto
  qed
qed simp_all

lemma add_same_shape:
  "shape a = shape b \<Longrightarrow>
     add a b = Inr \<lparr>shape = shape a, voxels = map2 (+) (voxels a) (voxels b)\<rparr>"
  by (simp add: add_def)

lemma add_Inl: "add a b = Inl e \<Longrightarrow> e = ValueError"
  by (auto simp: add_def Let_def split: if_splits option.splits)

lemma map2_sums:
  "z \<in> set (map2 (+) xs ys) \<Longrightarrow> \<exists>x\<in>set xs. \<exists>y\<in>set ys. z = x + y"
  by (auto dest: set_zip_leftD set_zip_rightD)

lemma add_voxels:
  assumes "add a b = (Inr c :: 'e error + ndarray)"
  shows "\<forall>z\<in>set (voxels c). \<exists>x\<in>set (voxels a). \<exists>y\<in>set (voxels b). z = x + y"
proof
  fix z assume z: "z \<in> set (voxels c)"
  from assms obtain xs ys where
    c: "voxels c = map2 (+) xs ys" and xs: "set xs \<subseteq> set (voxels a)" and ys: "set ys \<subseteq> set (voxels b)"
  proof (cases "shape a = shape b")
    case True
    with assms have "voxels c = map2 (+) (voxels a) (voxels b)"
      by (auto simp: add_def)
    then show ?thesis
      using that by blast
  next
    case False
    let ?r = "max (length (shape a)) (length (shape b))"
    from False assms obtain s where
      "voxels c = map2 (+) (broadcast_to (pad ?r (shape a)) s (voxels a))
                           (broadcast_to (pad ?r (shape b)) s (voxels b))"
      by (auto simp: add_def Let_def split: option.splits)
    then show ?thesis
      by (rule that) (rule set_broadcast_to)+
  qed
  from z c obtain x y where "x \<in> set xs" "y \<in> set ys" "z = x + y"
    using map2_sums [of z xs ys] by auto
  with xs ys show "\<exists>x\<in>set (voxels a). \<exists>y\<in>set (voxels b). z = x + y"
    by blast
qed

lemma reduce_from_add_nonneg:
  assumes "reduce_from add acc xs = (Inr s :: 'e error + ndarray)"
    and "\<forall>x\<in>set (voxels acc). 0 \<le> x"
    and "\<forall>m\<in>set xs. \<forall>x\<in>set (voxels m). 0 \<le> x"
  shows "\<forall>x\<in>set (voxels s). 0 \<le> x"
  using assms
proof (induction xs arbitrary: acc)
  case Nil
  then show ?case by simp
next
  case (Cons m xs)
  from Cons.prems(1) obtain acc' where
    step: "add acc m = (Inr acc' :: 'e error + ndarray)" and
    rest: "reduce_from add acc' xs = (Inr s :: 'e error + ndarray)"
    by (auto simp: and_then_eq_Inr)
  have "\<forall>z\<in>set (voxels acc'). 0 \<le> z"
  proof
    fix z assume "z \<in> set (voxels acc')"
    with add_voxels [OF step] obtain x y where
      "x \<in> set (voxels acc)" "y \<in> set (voxels m)" "z = x + y"
      by blast
    with Cons.prems(2,3) show "0 \<le> z"
      by simp
  qed
  from Cons.IH [OF rest this] Cons.prems(3) show ?case
    by simp
qed

lemma reduce_from_add_Inl:
  "reduce_from add acc xs = (Inl e :: 'e error + ndarray) \<Longrightarrow> e = ValueError"
  by (induction xs arbitrary: acc) (auto simp: and_then_eq_Inl dest: add_Inl)

lemma reduce_from_add_same_shape:
  assumes "\<forall>x\<in>set xs. shape x = shape acc"
  shows "\<exists>s. reduce_from add acc xs = (Inr s :: 'e error + ndarray) \<and> shape s = shape acc \<and>
           ((\<forall>x\<in>set xs. length (voxels x) = length (voxels acc)) \<longrightarrow>
              length (voxels s) = length (voxels acc) \<and>
              (\<forall>v<length (voxels acc). voxels s ! v = voxels acc ! v + (\<Sum>x\<leftarrow>xs. voxels x ! v)))"
  using assms
proof (induction xs arbitrary: acc)
  case Nil
  then show ?case by simp
next
  case (Cons x xs)
  let ?acc' = "\<lparr>shape = shape acc, voxels = map2 (+) (voxels acc) (voxels x)\<rparr>"
  have step: "add acc x = (Inr ?acc' :: 'e error + ndarray)"
    using Cons.prems by (intro add_same_shape) simp
  have "\<forall>y\<in>set xs. shape y = shape ?acc'"
    using Cons.prems by simp
  from Cons.IH [OF this] obtain s where
    s: "reduce_from add ?acc' xs = (Inr s :: 'e error + ndarray)" and
    shape: "shape s = shape acc" and
    sums: "(\<forall>y\<in>set xs. length (voxels y) = length (voxels ?acc')) \<longrightarrow>
              length (voxels s) = length (voxels ?acc') \<and>
              (\<forall>v<length (voxels ?acc'). voxels s ! v = voxels ?acc' ! v + (\<Sum>y\<leftarrow>xs. voxels y ! v))"
    by auto
  have run: "reduce_from add acc (x # xs) = (Inr s :: 'e error + ndarray)"
    by (simp add: step s)
  have "length (voxels s) = length (voxels acc) \<and>
      (\<forall>v<length (voxels acc). voxels s ! v = voxels acc ! v + (\<Sum>y\<leftarrow>x # xs. voxels y ! v))"
    if len: "\<forall>y\<in>set (x # xs). length (voxels y) = length (voxels acc)"
  proof -
    from len have lx: "length (voxels x) = length (voxels acc)"
      by simp
    then have l': "length (voxels ?acc') = length (voxels acc)"
      by simp
    from len have "\<forall>y\<in>set xs. length (voxels y) = length (voxels ?acc')"
      by (simp add: lx)
    with sums have
      ls: "length (voxels s) = length (voxels ?acc')" and
      at: "\<forall>v<length (voxels ?acc'). voxels s ! v = voxels ?acc' ! v + (\<Sum>y\<leftarrow>xs. voxels y ! v)"
      by blast+
    have "voxels s ! v = voxels acc ! v + (\<Sum>y\<leftarrow>x # xs. voxels y ! v)"
      if v: "v < length (voxels acc)" for v
    proof -
      from at v l' have "voxels s ! v = voxels ?acc' ! v + (\<Sum>y\<leftarrow>xs. voxels y ! v)"
        by simp
      moreover have "voxels ?acc' ! v = voxels acc ! v + voxels x ! v"
        using v lx by simp
      ultimately show ?thesis
        by (simp add: add.assoc)
    qed
    with ls l' show ?thesis
      by simp
  qed
  with run shape show ?case
    by blast
qed

lemma reduce_add_Inr: "reduce add csf = (Inr s :: 'e error + ndarray) \<Longrightarrow> csf \<noteq> []"
  by (auto simp: reduce_def)

lemma reduce_add_Inl:
  "reduce add csf = (Inl e :: 'e error + ndarray) \<Longrightarrow>
     (csf = [] \<and> e = TypeError) \<or> (csf \<noteq> [] \<and> e = ValueError)"
  by (cases csf) (auto simp: reduce_def dest: reduce_from_add_Inl)

lemma reduce_add_nonneg:
  assumes "reduce add csf = (Inr s :: 'e error + ndarray)"
    and "\<forall>m\<in>set csf. \<forall>x\<in>set (voxels m). 0 \<le> x"
  shows "\<forall>x\<in>set (voxels s). 0 \<le> x"
proof (cases csf)
  case Nil
  with assms(1) show ?thesis by (simp add: reduce_def)
next
  case (Cons m ms)
  with assms(1) have "reduce_from add m ms = (Inr s :: 'e error + ndarray)"
    by (simp add: reduce_def)
  from reduce_from_add_nonneg [OF this] assms(2) show ?thesis
    by (simp add: Cons)
qed

lemma reduce_add_same_shape:
  assumes "csf \<noteq> []" and "\<forall>m\<in>set csf. shape m = s"
  shows "\<exists>csf_sum. reduce add csf = (Inr csf_sum :: 'e error + ndarray) \<and> shape csf_sum = s \<and>
           (\<forall>g. (\<forall>m\<in>set csf. length (voxels m) = g) \<longrightarrow>
              length (voxels csf_sum) = g \<and>
              (\<forall>v<g. voxels csf_sum ! v = (\<Sum>m\<leftarrow>csf. voxels m ! v)))"
proof -
  from assms obtain x xs where csf: "csf = x # xs"
    by (cases csf) auto
  with assms(2) have "\<forall>y\<in>set xs. shape y = shape x"
    by simp
  from reduce_from_add_same_shape [OF this, where ?'e = 'e] obtain t where
    t: "reduce_from add x xs = (Inr t :: 'e error + ndarray)" and
    shape: "shape t = shape x" and
    sums: "(\<forall>y\<in>set xs. length (voxels y) = length (voxels x)) \<longrightarrow>
              length (voxels t) = length (voxels x) \<and>
              (\<forall>v<length (voxels x). voxels t ! v = voxels x ! v + (\<Sum>y\<leftarrow>xs. voxels y ! v))"
    by blast
  have "reduce add csf = (Inr t :: 'e error + ndarray)"
    by (simp add: reduce_def csf t)
  moreover have "shape t = s"
    using shape assms(2) by (simp add: csf)
  moreover have "length (voxels t) = g \<and> (\<forall>v<g. voxels t ! v = (\<Sum>m\<leftarrow>csf. voxels m ! v))"
    if "\<forall>m\<in>set csf. length (voxels m) = g" for g
    using that sums by (simp add: csf)
  ultimately show ?thesis
    by blast
qed

lemma intersect_Inr:
  "intersect n prob csf = (Inr out :: 'e error + ndarray) \<longleftrightarrow>
     (\<exists>csf_sum. reduce add csf = (Inr csf_sum :: 'e error + ndarray) \<and>
        out = \<lparr>shape = shape csf_sum,
               voxels = map (\<lambda>s. if s \<ge> of_int \<lfloor>float_mul n prob\<rfloor> then 1 else 0)
                          (voxels csf_sum)\<rparr>)"
  by (auto simp: intersect_def and_then_eq_Inr)

lemma intersect_Inl:
  "intersect n prob csf = (Inl e :: 'e error + ndarray) \<Longrightarrow>
     (csf = [] \<and> e = TypeError) \<or> (csf \<noteq> [] \<and> e = ValueError)"
  by (auto simp: intersect_def and_then_eq_Inl dest: reduce_add_Inl)

lemma intersect_same_shape:
  assumes "csf \<noteq> []" and "\<forall>m\<in>set csf. shape m = s"
  shows "\<exists>out. intersect n prob csf = (Inr out :: 'e error + ndarray) \<and> shape out = s \<and>
           (\<forall>g. (\<forall>m\<in>set csf. length (voxels m) = g) \<longrightarrow>
              length (voxels out) = g \<and>
              (\<forall>v<g. voxels out ! v =
                 (if of_int \<lfloor>float_mul n prob\<rfloor> \<le> (\<Sum>m\<leftarrow>csf. voxels m ! v) then 1 else 0)))"
proof -
  from reduce_add_same_shape [OF assms, where ?'e = 'e] obtain csf_sum where
    r: "reduce add csf = (Inr csf_sum :: 'e error + ndarray)" and
    shape: "shape csf_sum = s" and
    sums: "\<forall>g. (\<forall>m\<in>set csf. length (voxels m) = g) \<longrightarrow>
              length (voxels csf_sum) = g \<and>
              (\<forall>v<g. voxels csf_sum ! v = (\<Sum>m\<leftarrow>csf. voxels m ! v))"
    by blast
  let ?out = "\<lparr>shape = shape csf_sum,
               voxels = map (\<lambda>s. if s \<ge> of_int \<lfloor>float_mul n prob\<rfloor> then (1 :: rat) else 0)
                          (voxels csf_sum)\<rparr>"
  have "intersect n prob csf = (Inr ?out :: 'e error + ndarray)"
    unfolding intersect_Inr using r by blast
  moreover have "shape ?out = s"
    by (simp add: shape)
  moreover have "length (voxels ?out) = g \<and>
      (\<forall>v<g. voxels ?out ! v =
         (if of_int \<lfloor>float_mul n prob\<rfloor> \<le> (\<Sum>m\<leftarrow>csf. voxels m ! v) then 1 else 0))"
    if len: "\<forall>m\<in>set csf. length (voxels m) = g" for g
  proof -
    from sums len have
      l: "length (voxels csf_sum) = g" and
      at: "\<forall>v<g. voxels csf_sum ! v = (\<Sum>m\<leftarrow>csf. voxels m ! v)"
      by blast+
    then show ?thesis
      by simp
  qed
  ultimately show ?thesis
    by blast
qed

lemma binary_sum_le:
  "\<forall>x\<in>set xs. x = 0 \<or> x = (1 :: rat) \<Longrightarrow> sum_list xs \<le> of_nat (length xs)"
  by (induction xs) auto

lemma binary_sum_full:
  "\<forall>x\<in>set xs. x = 0 \<or> x = (1 :: rat) \<Longrightarrow> of_nat (length xs) \<le> sum_list xs \<longleftrightarrow> (\<forall>x\<in>set xs. x = 1)"
proof (induction xs)
  case Nil
  then show ?case by simp
next
  case (Cons x xs)
  then have le: "sum_list xs \<le> of_nat (length xs)"
    by (intro binary_sum_le) simp
  from Cons.prems have "x = 0 \<or> x = 1"
    by simp
  then show ?case
  proof
    assume "x = 0"
    with le show ?thesis by auto
  next
    assume "x = 1"
    with Cons show ?thesis by simp
  qed
qed

lemma unanimous:
  assumes "\<forall>x\<in>set xs. x = 0 \<or> x = (1 :: rat)" and "length xs \<le> n"
  shows "of_nat n \<le> sum_list xs \<longleftrightarrow> length xs = n \<and> (\<forall>x\<in>set xs. x = 1)"
proof (cases "length xs = n")
  case True
  with binary_sum_full [OF assms(1)] show ?thesis by simp
next
  case False
  with assms(2) have "length xs < n" by simp
  then have "(of_nat (length xs) :: rat) < of_nat n"
    by simp
  with binary_sum_le [OF assms(1)] have "sum_list xs < of_nat n"
    by simp
  with False show ?thesis by simp
qed

lemma binary_sum_nonneg:
  "\<forall>x\<in>set xs. x = 0 \<or> x = (1 :: rat) \<Longrightarrow> 0 \<le> sum_list xs"
  by (induction xs) auto

section \<open>Binary64: the product of line 86\<close>

lemma round_half_even_of_int: "round_half_even (of_int k) = k"
  by (simp add: round_half_even_def)

lemma round_half_even_bounds: "\<lfloor>m\<rfloor> \<le> round_half_even m \<and> round_half_even m \<le> \<lfloor>m\<rfloor> + 1"
  by (simp add: round_half_even_def Let_def)

lemma exponent_le:
  assumes "0 < x" and "x < 2 ^ 53"
  shows "exponent x \<le> 52"
proof (cases "1 \<le> x")
  case True
  from assms(2) have "\<lfloor>x\<rfloor> < 2 ^ 53"
    by (simp add: floor_less_iff)
  then have "bitlen \<lfloor>x\<rfloor> \<le> 53"
    by (simp add: bitlen_le_iff_power)
  with True show ?thesis
    by (simp add: exponent_def)
next
  case False
  then show ?thesis
    using bitlen_nonneg [of "\<lceil>1 / x\<rceil> - 1"] by (simp add: exponent_def)
qed

text \<open>Below \<open>2\<^sup>5\<^sup>3\<close> the binary64 numbers are the multiples of a power of two that divides 1.\<close>

lemma round_binary64_grid:
  assumes "0 < x" and "x < 2 ^ 53"
  shows "\<exists>m. round_binary64 x = of_int (round_half_even (x * 2 ^ m)) / 2 ^ m"
proof -
  define e where "e = max (exponent \<bar>x\<bar>) (- 1022)"
  define m where "m = nat (52 - e)"
  from assms have "exponent \<bar>x\<bar> \<le> 52"
    using exponent_le [of x] by simp
  then have e: "e \<le> 52"
    by (simp add: e_def)
  have q: "2 powi (e - 52) = (1 / 2 ^ m :: rat)"
    using e by (simp add: power_int_def m_def power_one_over inverse_eq_divide)
  have "round_binary64 x = of_int (round_half_even (x / 2 powi (e - 52))) * 2 powi (e - 52)"
    unfolding round_binary64_def Let_def e_def [symmetric] using assms(1) by simp
  then have "round_binary64 x = of_int (round_half_even (x * 2 ^ m)) / 2 ^ m"
    by (simp add: q)
  then show ?thesis ..
qed

lemma round_binary64_between:
  assumes "0 \<le> x" and "x < 2 ^ 53"
  shows "of_int \<lfloor>x\<rfloor> \<le> round_binary64 x \<and> round_binary64 x \<le> of_int \<lfloor>x\<rfloor> + 1"
proof (cases "x = 0")
  case True
  then show ?thesis by (simp add: round_binary64_def)
next
  case False
  with assms have pos: "0 < x" by simp
  from round_binary64_grid [OF pos assms(2)] obtain m where
    r: "round_binary64 x = of_int (round_half_even (x * 2 ^ m)) / 2 ^ m"
    by blast
  let ?k = "\<lfloor>x\<rfloor>"
  let ?y = "x * 2 ^ m"
  have "of_int (?k * 2 ^ m) \<le> ?y"
    by (simp add: mult_right_mono)
  then have "?k * 2 ^ m \<le> \<lfloor>?y\<rfloor>"
    by (simp only: le_floor_iff)
  with round_half_even_bounds [of ?y] have lo: "?k * 2 ^ m \<le> round_half_even ?y"
    by linarith
  have "x < of_int (?k + 1)"
    by linarith
  then have "?y < of_int (?k + 1) * 2 ^ m"
    by (simp add: mult_strict_right_mono)
  then have "?y < of_int ((?k + 1) * 2 ^ m)"
    by simp
  then have "\<lfloor>?y\<rfloor> < (?k + 1) * 2 ^ m"
    by (simp only: floor_less_iff)
  with round_half_even_bounds [of ?y] have hi: "round_half_even ?y \<le> (?k + 1) * 2 ^ m"
    by linarith
  from lo have "(of_int (?k * 2 ^ m) :: rat) \<le> of_int (round_half_even ?y)"
    by (simp only: of_int_le_iff)
  then have "(of_int ?k :: rat) * 2 ^ m \<le> of_int (round_half_even ?y)"
    by simp
  then have 1: "of_int ?k \<le> round_binary64 x"
    unfolding r by (simp add: pos_le_divide_eq)
  from hi have "(of_int (round_half_even ?y) :: rat) \<le> of_int ((?k + 1) * 2 ^ m)"
    by (simp only: of_int_le_iff)
  then have "(of_int (round_half_even ?y) :: rat) \<le> (of_int ?k + 1) * 2 ^ m"
    by simp
  then have 2: "round_binary64 x \<le> of_int ?k + 1"
    unfolding r by (simp add: pos_divide_le_eq)
  from 1 2 show ?thesis ..
qed

lemma round_binary64_int:
  assumes "0 \<le> k" and "k < 2 ^ 53"
  shows "round_binary64 (of_int k) = of_int k"
proof (cases "k = 0")
  case True
  then show ?thesis by (simp add: round_binary64_def)
next
  case False
  with assms have "0 < (of_int k :: rat)" and "(of_int k :: rat) < 2 ^ 53"
    by simp_all
  from round_binary64_grid [OF this] obtain m where
    "round_binary64 (of_int k) = of_int (round_half_even (of_int k * 2 ^ m)) / 2 ^ m"
    by blast
  moreover have "(of_int k :: rat) * 2 ^ m = of_int (k * 2 ^ m)"
    by simp
  ultimately have "round_binary64 (of_int k) = of_int (k * 2 ^ m) / 2 ^ m"
    by (simp only: round_half_even_of_int)
  then show ?thesis
    by simp
qed

lemma round_binary64_nat: "n < 2 ^ 53 \<Longrightarrow> round_binary64 (of_nat n) = of_nat n"
  using round_binary64_int [of "int n"] by simp

lemma float_mul_zero: "float_mul n 0 = 0"
  by (simp add: float_mul_def round_binary64_def)

lemma float_mul_one: "n < 2 ^ 53 \<Longrightarrow> float_mul n 1 = of_nat n"
  by (simp add: float_mul_def round_binary64_nat)

text \<open>The threshold of line 86 against the floor of the exact product.\<close>

lemma float_mul_floor:
  assumes "n < 2 ^ 53" and "0 \<le> prob" and "prob \<le> 1"
  shows "\<lfloor>float_mul n prob\<rfloor> = \<lfloor>of_nat n * prob\<rfloor> \<or>
         \<lfloor>float_mul n prob\<rfloor> = \<lfloor>of_nat n * prob\<rfloor> + 1"
proof -
  let ?x = "of_nat n * prob :: rat"
  have f: "float_mul n prob = round_binary64 ?x"
    using assms(1) by (simp add: float_mul_def round_binary64_nat)
  have "0 \<le> ?x"
    using assms(2) by simp
  moreover have "?x \<le> of_nat n"
    using assms(2,3) by (simp add: mult_left_le)
  then have "?x < 2 ^ 53"
    using assms(1) by (meson le_less_trans of_nat_less_numeral_power_cancel_iff)
  ultimately have "of_int \<lfloor>?x\<rfloor> \<le> round_binary64 ?x \<and> round_binary64 ?x \<le> of_int \<lfloor>?x\<rfloor> + 1"
    by (rule round_binary64_between)
  then have "\<lfloor>?x\<rfloor> \<le> \<lfloor>round_binary64 ?x\<rfloor> \<and> \<lfloor>round_binary64 ?x\<rfloor> \<le> \<lfloor>?x\<rfloor> + 1"
    by (simp add: le_floor_iff floor_le_iff)
  then show ?thesis
    unfolding f by linarith
qed

section \<open>\<open>csf_mask_intersection\<close>: where an error comes from\<close>

lemma avg_intensity_Inl: "avg_intensity a ps = Inl e \<Longrightarrow> e = IndexError"
  by (induction ps arbitrary: e) (auto simp: and_then_eq_Inl boolean_index_def split: if_splits)

lemma np_argmin_Inl: "np_argmin avg = Inl e \<Longrightarrow> e = ValueError"
  by (auto simp: np_argmin_def split: if_splits)

lemma to_antspy_Inl: "to_antspy L img brain_mask = Inl e \<Longrightarrow> \<exists>x. e = LibraryError x"
  by (auto simp: to_antspy_def and_then_eq_Inl library_eq_Inl split: image.splits option.splits)

lemma csf_membership_Inl:
  "csf_membership L img brain_mask mrf = Inl e \<Longrightarrow>
     e = AttributeError \<or> e = IndexError \<or> e = ValueError \<or> (\<exists>x. e = LibraryError x)"
  by (cases img)
    (auto simp: csf_membership_def and_then_eq_Inl library_eq_Inl
      dest: avg_intensity_Inl np_argmin_Inl)

lemma csf_mask_Inl:
  "csf_mask L img brain_mask csf_thresh return_prob mrf = Inl e \<Longrightarrow>
     e = AttributeError \<or> e = IndexError \<or> e = ValueError \<or> (\<exists>x. e = LibraryError x)"
  by (auto simp: csf_mask_def segment_csf_def and_then_eq_Inl
      dest: to_antspy_Inl csf_membership_Inl)

lemma loop_body_Inl:
  assumes "fst (loop_body L sf n i img m) = Inl e"
  shows "e = AttributeError \<or> e = IndexError \<or> e = ValueError \<or> (\<exists>x. e = LibraryError x)"
proof -
  from assms have "(\<exists>x. e = LibraryError x) \<or> (\<exists>x y. csf_mask_defaults L x y = Inl e)"
    by (auto simp: loop_body_def Let_def library_eq_Inl split: sum.splits mask_arg.splits)
  then show ?thesis
    unfolding csf_mask_defaults_def using csf_mask_Inl by blast
qed

lemma csf_mask_intersection_valid:
  assumes "0 \<le> prob" and "prob \<le> 1"
  shows "csf_mask_intersection L glob sf d masks prob =
     (case csf_loop L sf (length (nii_files glob d)) 0
             (zip (nii_files glob d) (mask_list glob (length (nii_files glob d)) masks)) [] of
        (Inl e, ev) \<Rightarrow> (Inl e, listing_events d masks @ ev)
      | (Inr csf, ev) \<Rightarrow> (intersect (length (nii_files glob d)) prob csf, listing_events d masks @ ev))"
  using assms by (simp add: csf_mask_intersection_def Let_def)



lemma csf_mask_intersection_Inr:
  assumes "csf_mask_intersection (L :: ('n, 'a, 'e) ants) glob sf d masks prob = (Inr out, events)"
  shows "0 \<le> prob \<and> prob \<le> 1 \<and>
     (\<exists>csf ev. csf_loop L sf (length (nii_files glob d)) 0
             (zip (nii_files glob d) (mask_list glob (length (nii_files glob d)) masks)) []
           = (Inr csf, ev) \<and>
        per_image_masks L glob sf d masks = Inr csf \<and>
        intersect (length (nii_files glob d)) prob csf = (Inr out :: 'e error + ndarray) \<and>
        events = listing_events d masks @ ev)"
proof -
  have valid: "0 \<le> prob \<and> prob \<le> 1"
    using assms by (auto simp: csf_mask_intersection_def split: if_splits)
  then show ?thesis
    using assms
    by (auto simp: csf_mask_intersection_valid per_image_masks_def Let_def split: prod.splits sum.splits)
qed

lemma csf_mask_intersection_Inl:
  assumes "fst (csf_mask_intersection L glob sf d masks prob) = Inl e"
    and "0 \<le> prob" and "prob \<le> 1"
  shows "e = TypeError \<or> e = AttributeError \<or> e = IndexError \<or> e = ValueError \<or>
         (\<exists>x. e = LibraryError x)"
proof -
  let ?n = "length (nii_files glob d)"
  let ?pairs = "zip (nii_files glob d) (mask_list glob ?n masks)"
  obtain r ev where loop: "csf_loop L sf ?n 0 ?pairs [] = (r, ev)"
    by (cases "csf_loop L sf ?n 0 ?pairs []")
  show ?thesis
  proof (cases r)
    case (Inl e')
    with assms loop have "e' = e"
      by (simp add: csf_mask_intersection_valid)
    with Inl loop obtain k where "fst (loop_body L sf ?n (0 + k) (fst (?pairs ! k)) (snd (?pairs ! k))) = Inl e"
      using csf_loop_Inl [of L sf ?n 0 ?pairs "[]" e ev] by blast
    then show ?thesis
      using loop_body_Inl by blast
  next
    case (Inr csf)
    with assms loop have "intersect ?n prob csf = Inl e"
      by (simp add: csf_mask_intersection_valid)
    then show ?thesis
      using intersect_Inl by blast
  qed
qed

text \<open>
  Claim C2. With \<open>prob\<close> outside the interval from 0 to 1,
  \<open>csf_mask_intersection\<close> raises NormalizationError with no event before it: no
  directory has been listed, no image or mask read and nothing logged. With \<open>prob\<close>
  inside the interval, whatever it raises is not NormalizationError.
\<close>

theorem prob_validation:
  "(\<not> (0 \<le> prob \<and> prob \<le> 1) \<longrightarrow>
      csf_mask_intersection L glob split_filename dir masks prob = (Inl (NormalizationError prob), [])) \<and>
   (0 \<le> prob \<and> prob \<le> 1 \<longrightarrow>
      (\<forall>p. fst (csf_mask_intersection L glob split_filename dir masks prob) \<noteq> Inl (NormalizationError p)))"
proof (intro conjI impI allI)
  assume "\<not> (0 \<le> prob \<and> prob \<le> 1)"
  then show "csf_mask_intersection L glob split_filename dir masks prob = (Inl (NormalizationError prob), [])"
    by (simp add: csf_mask_intersection_def)
next
  fix p
  assume "0 \<le> prob \<and> prob \<le> 1"
  then show "fst (csf_mask_intersection L glob split_filename dir masks prob) \<noteq> Inl (NormalizationError p)"
    using csf_mask_intersection_Inl [of L glob split_filename dir masks prob "NormalizationError p"]
    by auto
qed

theorem prob_validation_witness:
  "csf_mask_intersection toy_ants toy_glob toy_split_filename ''/d'' (Obj None) 2 =
     (Inl (NormalizationError 2), []) \<and>
   csf_mask_intersection toy_ants toy_glob toy_split_filename ''/d'' (Obj None) (- 1 / 10) =
     (Inl (NormalizationError (- 1 / 10)), []) \<and>
   fst (csf_mask_intersection toy_ants toy_glob toy_split_filename ''/d'' (Obj None) (1 / 2)) \<noteq>
     Inl (NormalizationError (1 / 2)) \<and>
   fst (csf_mask_intersection toy_ants toy_glob toy_split_filename ''/x'' (Obj None) 1) \<noteq>
     Inl (NormalizationError 1)"
  using prob_validation [of 2 toy_ants toy_glob toy_split_filename "''/d''" "Obj None"]
    prob_validation [of "- 1 / 10" toy_ants toy_glob toy_split_filename "''/d''" "Obj None"]
    prob_validation [of "1 / 2" toy_ants toy_glob toy_split_filename "''/d''" "Obj None"]
    prob_validation [of 1 toy_ants toy_glob toy_split_filename "''/x''" "Obj None"]
  by simp

text \<open>
  Claim C10. When no file of the image directory matches \<open>*.nii*\<close> and \<open>prob\<close> has
  passed the validation, \<open>csf_mask_intersection\<close> returns no mask: it raises the
  TypeError of \<open>reduce\<close> on an empty list, after the listings and before any read.
\<close>

theorem empty_image_directory:
  assumes "glob (path_join dir ''*.nii*'') = []" and "0 \<le> prob" and "prob \<le> 1"
  shows "csf_mask_intersection L glob split_filename dir masks prob =
           (Inl TypeError, listing_events dir masks)"
  using assms
  by (simp add: csf_mask_intersection_valid nii_files_def intersect_def reduce_def)

theorem empty_image_directory_witness:
  "toy_glob (path_join ''/x'' ''*.nii*'') = [] \<and>
   csf_mask_intersection toy_ants toy_glob toy_split_filename ''/x'' (Obj None) 1 =
     (Inl TypeError, [Glob ''/x/*.nii*'']) \<and>
   csf_mask_intersection toy_ants toy_glob toy_split_filename ''/x'' (Str ''/m'') (1 / 2) =
     (Inl TypeError, [Glob ''/x/*.nii*'', Glob ''/m/*.nii*''])"
proof -
  have empty: "toy_glob (path_join ''/x'' ''*.nii*'') = []"
    by code_simp
  have e1: "listing_events ''/x'' (Obj None :: (ndarray, ndarray) mask_arg) = [Glob ''/x/*.nii*'']"
    by code_simp
  have e2: "listing_events ''/x'' (Str ''/m'' :: (ndarray, ndarray) mask_arg) =
      [Glob ''/x/*.nii*'', Glob ''/m/*.nii*'']"
    by code_simp
  show ?thesis
    using empty e1 e2
      empty_image_directory [of toy_glob "''/x''" 1 toy_ants toy_split_filename "Obj None"]
      empty_image_directory [of toy_glob "''/x''" "1 / 2" toy_ants toy_split_filename "Str ''/m''"]
    by simp
qed


section \<open>\<open>csf_mask_intersection\<close>: the vote\<close>

lemma csf_loop_masks:
  assumes "csf_loop L sf n 0 pairs [] = (Inr csf, ev)"
  shows "length csf = length pairs \<and> (\<forall>m\<in>set csf. set (voxels m) \<subseteq> {0, 1}) \<and>
         ev = concat (map (\<lambda>k. pass_events sf n k (fst (pairs ! k)) (snd (pairs ! k))) [0..<length pairs]) \<and>
         (\<forall>k<length pairs. fst (loop_body L sf n k (fst (pairs ! k)) (snd (pairs ! k))) = Inr (csf ! k))"
proof -
  from csf_loop_Inr [OF assms] obtain cs where
    csf: "csf = cs" and len: "length cs = length pairs" and
    ev: "ev = concat (map (\<lambda>k. pass_events sf n (0 + k) (fst (pairs ! k)) (snd (pairs ! k))) [0..<length pairs])" and
    each: "\<forall>k<length pairs. fst (loop_body L sf n (0 + k) (fst (pairs ! k)) (snd (pairs ! k))) = Inr (cs ! k)"
    by auto
  have "set (voxels m) \<subseteq> {0, 1}" if "m \<in> set csf" for m
  proof -
    from that obtain k where "k < length pairs" "m = cs ! k"
      unfolding csf len [symmetric] by (auto simp: in_set_conv_nth)
    with each show ?thesis
      using loop_body_binary by blast
  qed
  with len ev each show ?thesis
    by (simp add: csf)
qed

lemma column_binary:
  assumes "\<forall>m\<in>set csf. length (voxels m) = g \<and> set (voxels m) \<subseteq> {0, 1 :: rat}" and "v < g"
  shows "\<forall>x\<in>set (map (\<lambda>m. voxels m ! v) csf). x = 0 \<or> x = 1"
proof -
  have "voxels m ! v = 0 \<or> voxels m ! v = 1" if "m \<in> set csf" for m
  proof -
    from that assms have "voxels m ! v \<in> set (voxels m)" and "set (voxels m) \<subseteq> {0, 1}"
      by auto
    then show ?thesis by auto
  qed
  then show ?thesis by auto
qed

text \<open>
  Claim C1, as amended. Let \<open>csf_mask_intersection\<close> return a mask, and let \<open>N\<close> be
  \<open>len(data)\<close>. The per-image masks have values 0 and 1 only. When they are arrays of
  one shape, the mask returned has that shape, and it is 1 at a voxel exactly when the
  sum of the per-image masks at that voxel is at least the floor of the binary64 product
  \<open>len(data) * prob\<close>, and 0 elsewhere. At \<open>prob = 1\<close> and \<open>N\<close> below \<open>2\<^sup>5\<^sup>3\<close> the mask is
  1 at a voxel exactly when there is a per-image mask for each of the \<open>N\<close> images and
  all of them are 1 there. For \<open>N\<close> below \<open>2\<^sup>5\<^sup>3\<close> the floor of the binary64 product is
  the floor of the exact product or 1 more.
\<close>

theorem cohort_vote:
  assumes "csf_mask_intersection (L :: ('n, 'a, 'e) ants) glob split_filename dir masks prob =
             (Inr out, events)"
  shows "\<exists>csf. per_image_masks L glob split_filename dir masks = Inr csf \<and>
           (\<forall>m\<in>set csf. set (voxels m) \<subseteq> {0, 1}) \<and>
           (\<forall>s. (\<forall>m\<in>set csf. shape m = s \<and> length (voxels m) = prod_list s) \<longrightarrow>
              shape out = s \<and> length (voxels out) = prod_list s \<and>
              (\<forall>v<prod_list s.
                 (voxels out ! v = 0 \<or> voxels out ! v = 1) \<and>
                 (voxels out ! v = 1 \<longleftrightarrow>
                    of_int \<lfloor>float_mul (length (nii_files glob dir)) prob\<rfloor>
                      \<le> (\<Sum>m\<leftarrow>csf. voxels m ! v)) \<and>
                 (prob = 1 \<and> length (nii_files glob dir) < 2 ^ 53 \<longrightarrow>
                    (voxels out ! v = 1 \<longleftrightarrow>
                       length csf = length (nii_files glob dir) \<and>
                       (\<forall>m\<in>set csf. voxels m ! v = 1))))) \<and>
           (length (nii_files glob dir) < 2 ^ 53 \<longrightarrow>
              \<lfloor>float_mul (length (nii_files glob dir)) prob\<rfloor> =
                \<lfloor>of_nat (length (nii_files glob dir)) * prob\<rfloor> \<or>
              \<lfloor>float_mul (length (nii_files glob dir)) prob\<rfloor> =
                \<lfloor>of_nat (length (nii_files glob dir)) * prob\<rfloor> + 1)"
proof -
  let ?n = "length (nii_files glob dir)"
  let ?pairs = "zip (nii_files glob dir) (mask_list glob ?n masks)"
  let ?t = "of_int \<lfloor>float_mul ?n prob\<rfloor> :: rat"
  from csf_mask_intersection_Inr [OF assms] obtain csf ev where
    prob: "0 \<le> prob" "prob \<le> 1" and
    loop: "csf_loop L split_filename ?n 0 ?pairs [] = (Inr csf, ev)" and
    masks: "per_image_masks L glob split_filename dir masks = Inr csf" and
    inter: "intersect ?n prob csf = (Inr out :: 'e error + ndarray)"
    by blast
  from csf_loop_masks [OF loop] have
    len: "length csf \<le> ?n" and binary: "\<forall>m\<in>set csf. set (voxels m) \<subseteq> {0, 1}"
    by simp_all
  from inter have ne: "csf \<noteq> []"
    unfolding intersect_Inr using reduce_add_Inr by blast
  have grid: "shape out = s \<and> length (voxels out) = prod_list s \<and>
      (\<forall>v<prod_list s.
         (voxels out ! v = 0 \<or> voxels out ! v = 1) \<and>
         (voxels out ! v = 1 \<longleftrightarrow> ?t \<le> (\<Sum>m\<leftarrow>csf. voxels m ! v)) \<and>
         (prob = 1 \<and> ?n < 2 ^ 53 \<longrightarrow>
            (voxels out ! v = 1 \<longleftrightarrow> length csf = ?n \<and> (\<forall>m\<in>set csf. voxels m ! v = 1))))"
    if one: "\<forall>m\<in>set csf. shape m = s \<and> length (voxels m) = prod_list s" for s
  proof -
    from one have shapes: "\<forall>m\<in>set csf. shape m = s" and
      lengths: "\<forall>m\<in>set csf. length (voxels m) = prod_list s"
      by simp_all
    from intersect_same_shape [OF ne shapes, of ?n prob, where ?'e = 'e] inter lengths have
      shape: "shape out = s" and
      length: "length (voxels out) = prod_list s" and
      vote: "\<forall>v<prod_list s. voxels out ! v = (if ?t \<le> (\<Sum>m\<leftarrow>csf. voxels m ! v) then 1 else 0)"
      by auto
    have voxel: "(voxels out ! v = 0 \<or> voxels out ! v = 1) \<and>
        (voxels out ! v = 1 \<longleftrightarrow> ?t \<le> (\<Sum>m\<leftarrow>csf. voxels m ! v)) \<and>
        (prob = 1 \<and> ?n < 2 ^ 53 \<longrightarrow>
           (voxels out ! v = 1 \<longleftrightarrow> length csf = ?n \<and> (\<forall>m\<in>set csf. voxels m ! v = 1)))"
      if v: "v < prod_list s" for v
    proof -
      from vote v have out: "voxels out ! v = (if ?t \<le> (\<Sum>m\<leftarrow>csf. voxels m ! v) then 1 else 0)"
        by simp
      have col: "\<forall>x\<in>set (map (\<lambda>m. voxels m ! v) csf). x = 0 \<or> x = 1"
        using lengths binary v by (intro column_binary [of csf "prod_list s"]) auto
      have all: "of_nat ?n \<le> (\<Sum>m\<leftarrow>csf. voxels m ! v) \<longleftrightarrow>
          length csf = ?n \<and> (\<forall>m\<in>set csf. voxels m ! v = 1)"
        using unanimous [OF col, of ?n] len by simp
      have one: "?t = of_nat ?n" if "prob = 1" and "?n < 2 ^ 53"
        using that by (simp add: float_mul_one)
      show ?thesis
        using out all one by auto
    qed
    with shape length show ?thesis
      by blast
  qed
  have floor: "\<lfloor>float_mul ?n prob\<rfloor> = \<lfloor>of_nat ?n * prob\<rfloor> \<or>
      \<lfloor>float_mul ?n prob\<rfloor> = \<lfloor>of_nat ?n * prob\<rfloor> + 1"
    if "?n < 2 ^ 53"
    using that prob by (rule float_mul_floor)
  from masks binary grid floor show ?thesis
    by blast
qed

theorem cohort_vote_witness:
  "csf_mask_intersection toy_ants toy_glob toy_split_filename ''/e'' (Obj None) float_0_6 =
     (Inr (vector [1, 0, 0]),
      [Glob ''/e/*.nii*'',
       LogInfo ''Creating CSF mask for image a (1/5)'', ImageRead ''/e/a.nii'',
       LogInfo ''Creating CSF mask for image b (2/5)'', ImageRead ''/e/b.nii'',
       LogInfo ''Creating CSF mask for image c (3/5)'', ImageRead ''/e/c.nii'',
       LogInfo ''Creating CSF mask for image d (4/5)'', ImageRead ''/e/d.nii'',
       LogInfo ''Creating CSF mask for image e (5/5)'', ImageRead ''/e/e.nii'']) \<and>
   per_image_masks toy_ants toy_glob toy_split_filename ''/e'' (Obj None) =
     Inr [vector [1, 0, 0], vector [1, 0, 0], vector [1, 0, 0], vector [0, 1, 0], vector [0, 1, 0]] \<and>
   length (nii_files toy_glob ''/e'') = 5 \<and>
   float_mul 5 float_0_6 = 3 \<and>
   shape (vector [1, 0, 0 :: rat]) = [3] \<and>
   ([1, 0, 0 :: rat] ! 0 = 1) = ((3 :: rat) \<le> 1 + 1 + 1 + 0 + 0) \<and>
   ([1, 0, 0 :: rat] ! 1 = 1) = ((3 :: rat) \<le> 0 + 0 + 0 + 1 + 1) \<and>
   ([1, 0, 0 :: rat] ! 2 = 1) = ((3 :: rat) \<le> 0 + 0 + 0 + 0 + 0) \<and>
   csf_mask_intersection toy_ants toy_glob toy_split_filename ''/d'' (Obj None) 1 =
     (Inr (vector [1, 0, 0]),
      [Glob ''/d/*.nii*'', LogInfo ''Creating CSF mask for image a (1/2)'', ImageRead ''/d/a.nii'',
       LogInfo ''Creating CSF mask for image b (2/2)'', ImageRead ''/d/b.nii'']) \<and>
   per_image_masks toy_ants toy_glob toy_split_filename ''/d'' (Obj None) =
     Inr [vector [1, 0, 0], vector [1, 0, 0]] \<and>
   length (nii_files toy_glob ''/d'') = 2 \<and>
   ([1, 0, 0 :: rat] ! 0 = 1) =
     (length [vector [1, 0, 0 :: rat], vector [1, 0, 0]] = 2 \<and>
      list_all (\<lambda>m. voxels m ! 0 = 1) [vector [1, 0, 0 :: rat], vector [1, 0, 0]]) \<and>
   ([1, 0, 0 :: rat] ! 1 = 1) =
     (length [vector [1, 0, 0 :: rat], vector [1, 0, 0]] = 2 \<and>
      list_all (\<lambda>m. voxels m ! 1 = 1) [vector [1, 0, 0 :: rat], vector [1, 0, 0]])"
proof -
  let ?events = "[Glob ''/e/*.nii*'',
       LogInfo ''Creating CSF mask for image a (1/5)'', ImageRead ''/e/a.nii'',
       LogInfo ''Creating CSF mask for image b (2/5)'', ImageRead ''/e/b.nii'',
       LogInfo ''Creating CSF mask for image c (3/5)'', ImageRead ''/e/c.nii'',
       LogInfo ''Creating CSF mask for image d (4/5)'', ImageRead ''/e/d.nii'',
       LogInfo ''Creating CSF mask for image e (5/5)'', ImageRead ''/e/e.nii'']"
  let ?csf = "[vector [1, 0, 0], vector [1, 0, 0], vector [1, 0, 0], vector [0, 1, 0],
               vector [0, 1, 0 :: rat]]"
  have run: "csf_mask_intersection toy_ants toy_glob toy_split_filename ''/e'' (Obj None) float_0_6 =
     (Inr (vector [1, 0, 0]), ?events)"
    by code_simp
  have masks: "per_image_masks toy_ants toy_glob toy_split_filename ''/e'' (Obj None) = Inr ?csf"
    by code_simp
  have n: "length (nii_files toy_glob ''/e'') = 5"
    by code_simp
  have t: "float_mul 5 float_0_6 = 3"
    by code_simp
  have one: "\<forall>m\<in>set ?csf. shape m = [3] \<and> length (voxels m) = prod_list [3]"
    by (simp add: vector_def)
  from cohort_vote [OF run] obtain csf where
    csf: "per_image_masks toy_ants toy_glob toy_split_filename ''/e'' (Obj None) = Inr csf" and
    grid: "\<forall>s. (\<forall>m\<in>set csf. shape m = s \<and> length (voxels m) = prod_list s) \<longrightarrow>
       shape (vector [1, 0, 0 :: rat]) = s \<and> length (voxels (vector [1, 0, 0 :: rat])) = prod_list s \<and>
       (\<forall>v<prod_list s.
          (voxels (vector [1, 0, 0 :: rat]) ! v = 0 \<or> voxels (vector [1, 0, 0 :: rat]) ! v = 1) \<and>
          (voxels (vector [1, 0, 0 :: rat]) ! v = 1 \<longleftrightarrow>
             of_int \<lfloor>float_mul (length (nii_files toy_glob ''/e'')) float_0_6\<rfloor>
               \<le> (\<Sum>m\<leftarrow>csf. voxels m ! v)) \<and>
          (float_0_6 = 1 \<and> length (nii_files toy_glob ''/e'') < 2 ^ 53 \<longrightarrow>
             (voxels (vector [1, 0, 0 :: rat]) ! v = 1 \<longleftrightarrow>
                length csf = length (nii_files toy_glob ''/e'') \<and>
                (\<forall>m\<in>set csf. voxels m ! v = 1))))"
    by blast
  from csf masks have csf': "csf = ?csf"
    by simp
  from grid [rule_format, of "[3]"] one have
    shape: "shape (vector [1, 0, 0 :: rat]) = [3]" and
    votes: "\<forall>v<prod_list [3].
          (voxels (vector [1, 0, 0 :: rat]) ! v = 0 \<or> voxels (vector [1, 0, 0 :: rat]) ! v = 1) \<and>
          (voxels (vector [1, 0, 0 :: rat]) ! v = 1 \<longleftrightarrow>
             of_int \<lfloor>float_mul (length (nii_files toy_glob ''/e'')) float_0_6\<rfloor>
               \<le> (\<Sum>m\<leftarrow>csf. voxels m ! v)) \<and>
          (float_0_6 = 1 \<and> length (nii_files toy_glob ''/e'') < 2 ^ 53 \<longrightarrow>
             (voxels (vector [1, 0, 0 :: rat]) ! v = 1 \<longleftrightarrow>
                length csf = length (nii_files toy_glob ''/e'') \<and>
                (\<forall>m\<in>set csf. voxels m ! v = 1)))"
    unfolding csf' by blast+
  have all: "([1, 0, 0 :: rat] ! v = 1) = ((3 :: rat) \<le> (\<Sum>m\<leftarrow>?csf. voxels m ! v))" if "v < 3" for v
    using votes [rule_format, of v] that by (simp add: n t csf' vector_def)
  have "([1, 0, 0 :: rat] ! 0 = 1) = ((3 :: rat) \<le> 1 + 1 + 1 + 0 + 0) \<and>
        ([1, 0, 0 :: rat] ! 1 = 1) = ((3 :: rat) \<le> 0 + 0 + 0 + 1 + 1) \<and>
        ([1, 0, 0 :: rat] ! 2 = 1) = ((3 :: rat) \<le> 0 + 0 + 0 + 0 + 0)"
    using all [of 0] all [of 1] all [of 2]
    by (simp add: vector_def)
  with run masks n t shape have
    "csf_mask_intersection toy_ants toy_glob toy_split_filename ''/e'' (Obj None) float_0_6 =
       (Inr (vector [1, 0, 0]), ?events) \<and>
     per_image_masks toy_ants toy_glob toy_split_filename ''/e'' (Obj None) = Inr ?csf \<and>
     length (nii_files toy_glob ''/e'') = 5 \<and>
     float_mul 5 float_0_6 = 3 \<and>
     shape (vector [1, 0, 0 :: rat]) = [3] \<and>
     ([1, 0, 0 :: rat] ! 0 = 1) = ((3 :: rat) \<le> 1 + 1 + 1 + 0 + 0) \<and>
     ([1, 0, 0 :: rat] ! 1 = 1) = ((3 :: rat) \<le> 0 + 0 + 0 + 1 + 1) \<and>
     ([1, 0, 0 :: rat] ! 2 = 1) = ((3 :: rat) \<le> 0 + 0 + 0 + 0 + 0)"
    by blast
  note five = this
  let ?events' = "[Glob ''/d/*.nii*'', LogInfo ''Creating CSF mask for image a (1/2)'',
       ImageRead ''/d/a.nii'', LogInfo ''Creating CSF mask for image b (2/2)'', ImageRead ''/d/b.nii'']"
  let ?csf' = "[vector [1, 0, 0 :: rat], vector [1, 0, 0]]"
  have run': "csf_mask_intersection toy_ants toy_glob toy_split_filename ''/d'' (Obj None) 1 =
     (Inr (vector [1, 0, 0]), ?events')"
    by code_simp
  have masks': "per_image_masks toy_ants toy_glob toy_split_filename ''/d'' (Obj None) = Inr ?csf'"
    by code_simp
  have n': "length (nii_files toy_glob ''/d'') = 2"
    by code_simp
  have one': "\<forall>m\<in>set ?csf'. shape m = [3] \<and> length (voxels m) = prod_list [3]"
    by (simp add: vector_def)
  from cohort_vote [OF run'] obtain csf2 where
    csf2: "per_image_masks toy_ants toy_glob toy_split_filename ''/d'' (Obj None) = Inr csf2" and
    grid2: "\<forall>s. (\<forall>m\<in>set csf2. shape m = s \<and> length (voxels m) = prod_list s) \<longrightarrow>
       shape (vector [1, 0, 0 :: rat]) = s \<and> length (voxels (vector [1, 0, 0 :: rat])) = prod_list s \<and>
       (\<forall>v<prod_list s.
          (voxels (vector [1, 0, 0 :: rat]) ! v = 0 \<or> voxels (vector [1, 0, 0 :: rat]) ! v = 1) \<and>
          (voxels (vector [1, 0, 0 :: rat]) ! v = 1 \<longleftrightarrow>
             of_int \<lfloor>float_mul (length (nii_files toy_glob ''/d'')) 1\<rfloor>
               \<le> (\<Sum>m\<leftarrow>csf2. voxels m ! v)) \<and>
          ((1 :: rat) = 1 \<and> length (nii_files toy_glob ''/d'') < 2 ^ 53 \<longrightarrow>
             (voxels (vector [1, 0, 0 :: rat]) ! v = 1 \<longleftrightarrow>
                length csf2 = length (nii_files toy_glob ''/d'') \<and>
                (\<forall>m\<in>set csf2. voxels m ! v = 1))))"
    by blast
  from csf2 masks' have csf2': "csf2 = ?csf'"
    by simp
  from grid2 [rule_format, of "[3]"] one' have
    votes2: "\<forall>v<prod_list [3].
          (voxels (vector [1, 0, 0 :: rat]) ! v = 0 \<or> voxels (vector [1, 0, 0 :: rat]) ! v = 1) \<and>
          (voxels (vector [1, 0, 0 :: rat]) ! v = 1 \<longleftrightarrow>
             of_int \<lfloor>float_mul (length (nii_files toy_glob ''/d'')) 1\<rfloor>
               \<le> (\<Sum>m\<leftarrow>csf2. voxels m ! v)) \<and>
          ((1 :: rat) = 1 \<and> length (nii_files toy_glob ''/d'') < 2 ^ 53 \<longrightarrow>
             (voxels (vector [1, 0, 0 :: rat]) ! v = 1 \<longleftrightarrow>
                length csf2 = length (nii_files toy_glob ''/d'') \<and>
                (\<forall>m\<in>set csf2. voxels m ! v = 1)))"
    unfolding csf2' by blast
  have all': "([1, 0, 0 :: rat] ! v = 1) =
      (length ?csf' = 2 \<and> list_all (\<lambda>m. voxels m ! v = 1) ?csf')" if "v < 3" for v
  proof -
    from that have v: "v < prod_list [3]"
      by simp
    have small: "(1 :: rat) = 1 \<and> length (nii_files toy_glob ''/d'') < 2 ^ 53"
      by (simp add: n')
    from votes2 [rule_format, OF v] small have
      "(voxels (vector [1, 0, 0 :: rat]) ! v = 1) =
         (length csf2 = length (nii_files toy_glob ''/d'') \<and> (\<forall>m\<in>set csf2. voxels m ! v = 1))"
      by blast
    then show ?thesis
      by (simp add: csf2' n' vector_def)
  qed
  have first: "([1, 0, 0 :: rat] ! 0 = 1) =
      (length ?csf' = 2 \<and> list_all (\<lambda>m. voxels m ! 0 = 1) ?csf')"
    by (rule all') simp
  have second: "([1, 0, 0 :: rat] ! 1 = 1) =
      (length ?csf' = 2 \<and> list_all (\<lambda>m. voxels m ! 1 = 1) ?csf')"
    by (rule all') simp
  from five run' masks' n' first second show ?thesis
    by blast
qed

text \<open>
  Claim C1, as stated, fails in two ways. With five images and \<open>prob\<close> the binary64
  number written \<open>0.6\<close>, the exact product is just below 3 and its floor is 2, the
  binary64 product is 3, and the second voxel, which two of the five per-image masks
  label, is 0. (With fifty images and \<open>0.58\<close> it is the other way round for the decimal
  reading of \<open>prob\<close>: the floor of fifty times 58/100 is 29 and that of the binary64
  product is 28.) With two images, a directory of one brain mask and \<open>prob = 1\<close>, there
  is one per-image mask, it is 1 at the first voxel, and the mask returned is 0 there.
\<close>

theorem cohort_vote_rounding:
  "fst (csf_mask_intersection toy_ants toy_glob toy_split_filename ''/e'' (Obj None) float_0_6) =
     Inr (vector [1, 0, 0]) \<and>
   per_image_masks toy_ants toy_glob toy_split_filename ''/e'' (Obj None) =
     Inr [vector [1, 0, 0], vector [1, 0, 0], vector [1, 0, 0], vector [0, 1, 0], vector [0, 1, 0]] \<and>
   length (nii_files toy_glob ''/e'') = 5 \<and>
   round_binary64 (6 / 10) = float_0_6 \<and>
   \<lfloor>5 * float_0_6\<rfloor> = 2 \<and>
   \<lfloor>float_mul 5 float_0_6\<rfloor> = 3 \<and>
   round_binary64 (58 / 100) = float_0_58 \<and>
   \<lfloor>50 * (58 / 100 :: rat)\<rfloor> = 29 \<and>
   \<lfloor>float_mul 50 float_0_58\<rfloor> = 28 \<and>
   fst (csf_mask_intersection toy_ants toy_glob toy_split_filename ''/d'' (Str ''/m'') 1) =
     Inr (vector [0, 0, 0]) \<and>
   per_image_masks toy_ants toy_glob toy_split_filename ''/d'' (Str ''/m'') = Inr [vector [1, 0, 0]] \<and>
   length (nii_files toy_glob ''/d'') = 2"
  by code_simp

text \<open>
  Claim C3, as amended. At \<open>prob = 0\<close> the threshold is 0 and every sum reaches it:
  the mask that \<open>csf_mask_intersection\<close> returns is 1 at every voxel, also where no
  per-image mask is 1. It has the shape and the number of voxels of the per-image masks
  when these have one shape.
\<close>

theorem zero_prob_every_voxel:
  assumes "csf_mask_intersection (L :: ('n, 'a, 'e) ants) glob split_filename dir masks 0 =
             (Inr out, events)"
  shows "\<exists>csf. per_image_masks L glob split_filename dir masks = Inr csf \<and>
           (\<forall>s g. (\<forall>m\<in>set csf. shape m = s \<and> length (voxels m) = g) \<longrightarrow>
              shape out = s \<and> length (voxels out) = g) \<and>
           (\<forall>v<length (voxels out). voxels out ! v = 1)"
proof -
  let ?n = "length (nii_files glob dir)"
  let ?pairs = "zip (nii_files glob dir) (mask_list glob ?n masks)"
  from csf_mask_intersection_Inr [OF assms] obtain csf ev where
    loop: "csf_loop L split_filename ?n 0 ?pairs [] = (Inr csf, ev)" and
    masks: "per_image_masks L glob split_filename dir masks = Inr csf" and
    inter: "intersect ?n 0 csf = (Inr out :: 'e error + ndarray)"
    by blast
  from csf_loop_masks [OF loop] have binary: "\<forall>m\<in>set csf. set (voxels m) \<subseteq> {0, 1}"
    by simp
  from inter obtain csf_sum where
    r: "reduce add csf = (Inr csf_sum :: 'e error + ndarray)" and
    out: "out = \<lparr>shape = shape csf_sum,
                 voxels = map (\<lambda>s. if s \<ge> of_int \<lfloor>float_mul ?n 0\<rfloor> then 1 else 0)
                            (voxels csf_sum)\<rparr>"
    unfolding intersect_Inr by blast
  have ne: "csf \<noteq> []"
    using r by (rule reduce_add_Inr)
  have "0 \<le> x" if "m \<in> set csf" and "x \<in> set (voxels m)" for m x
  proof -
    from that binary have "x \<in> {0, 1}"
      by blast
    then show ?thesis
      by auto
  qed
  then have "\<forall>m\<in>set csf. \<forall>x\<in>set (voxels m). 0 \<le> x"
    by blast
  with r have nonneg: "\<forall>x\<in>set (voxels csf_sum). 0 \<le> x"
    by (rule reduce_add_nonneg)
  have every: "voxels out ! v = 1" if v: "v < length (voxels out)" for v
  proof -
    from v have "v < length (voxels csf_sum)"
      by (simp add: out)
    then have "0 \<le> voxels csf_sum ! v"
      using nonneg by simp
    with \<open>v < length (voxels csf_sum)\<close> show ?thesis
      by (simp add: out float_mul_zero)
  qed
  have grid: "shape out = s \<and> length (voxels out) = g"
    if one: "\<forall>m\<in>set csf. shape m = s \<and> length (voxels m) = g" for s g
  proof -
    from one have shapes: "\<forall>m\<in>set csf. shape m = s" and
      lengths: "\<forall>m\<in>set csf. length (voxels m) = g"
      by simp_all
    from intersect_same_shape [OF ne shapes, of ?n 0, where ?'e = 'e] inter lengths
    show ?thesis
      by auto
  qed
  from masks grid every show ?thesis
    by blast
qed

theorem zero_prob_every_voxel_witness:
  "csf_mask_intersection toy_ants toy_glob toy_split_filename ''/d'' (Str ''/m'') 0 =
     (Inr (vector [1, 1, 1]),
      [Glob ''/d/*.nii*'', Glob ''/m/*.nii*'', LogInfo ''Creating CSF mask for image a (1/2)'',
       ImageRead ''/d/a.nii'', ImageRead ''/m/a.nii'']) \<and>
   per_image_masks toy_ants toy_glob toy_split_filename ''/d'' (Str ''/m'') = Inr [vector [1, 0, 0]] \<and>
   [1, 1, 1 :: rat] ! 0 = 1 \<and> [1, 1, 1 :: rat] ! 1 = 1 \<and> [1, 1, 1 :: rat] ! 2 = 1"
proof -
  have run: "csf_mask_intersection toy_ants toy_glob toy_split_filename ''/d'' (Str ''/m'') 0 =
     (Inr (vector [1, 1, 1]),
      [Glob ''/d/*.nii*'', Glob ''/m/*.nii*'', LogInfo ''Creating CSF mask for image a (1/2)'',
       ImageRead ''/d/a.nii'', ImageRead ''/m/a.nii''])"
    by code_simp
  have masks: "per_image_masks toy_ants toy_glob toy_split_filename ''/d'' (Str ''/m'') =
      Inr [vector [1, 0, 0]]"
    by code_simp
  from zero_prob_every_voxel [OF run]
  have "\<forall>v<length (voxels (vector [1, 1, 1 :: rat])). voxels (vector [1, 1, 1 :: rat]) ! v = 1"
    by blast
  then have all: "\<forall>v<3. [1, 1, 1 :: rat] ! v = 1"
    by (simp add: vector_def)
  have "[1, 1, 1 :: rat] ! 0 = 1 \<and> [1, 1, 1 :: rat] ! 1 = 1 \<and> [1, 1, 1 :: rat] ! 2 = 1"
    using all [rule_format, of 0] all [rule_format, of 1] all [rule_format, of 2] by simp
  with run masks show ?thesis
    by blast
qed

text \<open>
  Claim C3, as stated, fails: at \<open>prob = 0\<close> the second and third voxels of the mask
  are 1, and neither of the two per-image masks is 1 there.
\<close>

theorem zero_prob_without_votes:
  "csf_mask_intersection toy_ants toy_glob toy_split_filename ''/d'' (Obj None) 0 =
     (Inr (vector [1, 1, 1]),
      [Glob ''/d/*.nii*'', LogInfo ''Creating CSF mask for image a (1/2)'', ImageRead ''/d/a.nii'',
       LogInfo ''Creating CSF mask for image b (2/2)'', ImageRead ''/d/b.nii'']) \<and>
   per_image_masks toy_ants toy_glob toy_split_filename ''/d'' (Obj None) =
     Inr [vector [1, 0, 0], vector [1, 0, 0]]"
  by code_simp

section \<open>\<open>csf_mask_intersection\<close>: order, progress and pairing\<close>

lemma log_messages_append: "log_messages (xs @ ys) = log_messages xs @ log_messages ys"
  by (simp add: log_messages_def)

lemma log_messages_listing: "log_messages (listing_events dir masks) = []"
  by (cases masks) (simp_all add: log_messages_def listing_events_def)

lemma log_messages_pass:
  "log_messages (pass_events sf n i img m) = [progress_message (fst (snd (sf img))) (i + 1) n]"
  by (cases m) (simp_all add: log_messages_def pass_events_def)

lemma log_messages_passes:
  "log_messages (concat (map (\<lambda>i. pass_events sf n i (f i) (g i)) is)) =
     map (\<lambda>i. progress_message (fst (snd (sf (f i)))) (i + 1) n) is"
  by (induction "is") (simp_all add: log_messages_append log_messages_pass, simp add: log_messages_def)



lemma pass_events_zip:
  "concat (map (\<lambda>k. pass_events sf n k (fst (zip xs ys ! k)) (snd (zip xs ys ! k))) [0..<length (zip xs ys)])
     = concat (map (\<lambda>k. pass_events sf n k (xs ! k) (ys ! k)) [0..<length (zip xs ys)])"
  by (rule arg_cong [where f = concat], rule map_cong) simp_all






text \<open>
  Claim C9, as amended. Let the mask directory list a number of files other than the
  image directory does, each at least one, and let \<open>k\<close> be the smaller number. When
  the passes over the first \<open>k\<close> pairs of the two sorted listings raise nothing and
  give masks of one shape, \<open>csf_mask_intersection\<close> raises nothing either: it returns a
  mask of that shape (and of as many voxels as each of these masks) after exactly these
  \<open>k\<close> passes, and every message logged gives \<open>len(data)\<close>, the number of images, as
  the total.
\<close>

theorem mismatched_mask_directory:
  assumes prob: "0 \<le> prob" "prob \<le> 1"
    and mismatch: "length (nii_files glob dir) \<noteq> length (nii_files glob mdir)"
    and k: "k = min (length (nii_files glob dir)) (length (nii_files glob mdir))"
    and some: "1 \<le> k"
    and passes: "\<forall>i<k. \<exists>c. fst (loop_body (L :: ('n, 'a, 'e) ants) split_filename
                    (length (nii_files glob dir)) i
                    (nii_files glob dir ! i) (Str (nii_files glob mdir ! i))) = Inr c \<and>
                  shape c = s"
  shows "\<exists>out csf.
           csf_mask_intersection L glob split_filename dir (Str mdir) prob =
             (Inr out, run_events glob split_filename dir (Str mdir :: ('n, 'a) mask_arg) k) \<and>
           shape out = s \<and>
           (\<forall>g. (\<forall>m\<in>set csf. length (voxels m) = g) \<longrightarrow> length (voxels out) = g) \<and>
           per_image_masks L glob split_filename dir (Str mdir) = Inr csf \<and>
           length csf = k \<and>
           log_messages (run_events glob split_filename dir (Str mdir :: ('n, 'a) mask_arg) k) =
             map (\<lambda>i. progress_message (fst (snd (split_filename (nii_files glob dir ! i)))) (i + 1)
                        (length (nii_files glob dir)))
               [0..<k]"
proof -
  let ?data = "nii_files glob dir"
  let ?n = "length ?data"
  let ?ms = "mask_list glob ?n (Str mdir :: ('n, 'a) mask_arg)"
  let ?pairs = "zip ?data ?ms"
  have ms: "?ms = map Str (nii_files glob mdir)"
    by (simp add: mask_list_def)
  have len: "length ?pairs = k"
    by (simp add: ms k)
  have pair: "fst (?pairs ! i) = ?data ! i \<and> snd (?pairs ! i) = Str (nii_files glob mdir ! i)"
    if "i < k" for i
    using that by (simp add: ms k)
  obtain r ev where loop: "csf_loop L split_filename ?n 0 ?pairs [] = (r, ev)"
    by (cases "csf_loop L split_filename ?n 0 ?pairs []")
  have "\<exists>csf. r = Inr csf"
  proof (cases r)
    case (Inl e)
    with loop obtain j where
      j: "j < length ?pairs" and
      "fst (loop_body L split_filename ?n (0 + j) (fst (?pairs ! j)) (snd (?pairs ! j))) = Inl e"
      using csf_loop_Inl [of L split_filename ?n 0 ?pairs "[]" e ev] by blast
    with pair [of j] len have
      "fst (loop_body L split_filename ?n j (?data ! j) (Str (nii_files glob mdir ! j))) = Inl e"
      by simp
    with passes j len show ?thesis
      by auto
  next
    case (Inr csf)
    then show ?thesis by blast
  qed
  then obtain csf where loop': "csf_loop L split_filename ?n 0 ?pairs [] = (Inr csf, ev)"
    using loop by blast
  from csf_loop_masks [OF loop'] have
    lcsf0: "length csf = length ?pairs" and
    ev: "ev = concat (map (\<lambda>j. pass_events split_filename ?n j (fst (?pairs ! j)) (snd (?pairs ! j)))
               [0..<length ?pairs])" and
    each0: "\<forall>j<length ?pairs.
       fst (loop_body L split_filename ?n j (fst (?pairs ! j)) (snd (?pairs ! j))) = Inr (csf ! j)"
    by blast+
  from lcsf0 have lcsf: "length csf = k"
    by (simp only: len)
  from each0 have
    each: "\<forall>j<k. fst (loop_body L split_filename ?n j (fst (?pairs ! j)) (snd (?pairs ! j))) = Inr (csf ! j)"
    by (simp only: len)
  have grid: "\<forall>m\<in>set csf. shape m = s"
  proof
    fix m assume "m \<in> set csf"
    then obtain j where j: "j < k" and m: "m = csf ! j"
      using lcsf by (auto simp: in_set_conv_nth)
    from each j have body:
      "fst (loop_body L split_filename ?n j (fst (?pairs ! j)) (snd (?pairs ! j))) = Inr (csf ! j)"
      by blast
    from pair [OF j] have
      p1: "fst (?pairs ! j) = ?data ! j" and p2: "snd (?pairs ! j) = Str (nii_files glob mdir ! j)"
      by blast+
    from body have
      "fst (loop_body L split_filename ?n j (?data ! j) (Str (nii_files glob mdir ! j))) = Inr m"
      unfolding p1 p2 m .
    with passes j show "shape m = s"
      by auto
  qed
  have ne: "csf \<noteq> []"
    using lcsf some by auto
  from intersect_same_shape [OF ne grid, of ?n prob, where ?'e = 'e] obtain out where
    out: "intersect ?n prob csf = (Inr out :: 'e error + ndarray)" and
    lout: "shape out = s" and
    vout: "\<forall>g. (\<forall>m\<in>set csf. length (voxels m) = g) \<longrightarrow> length (voxels out) = g"
    by blast
  have events: "listing_events dir (Str mdir :: ('n, 'a) mask_arg) @ ev =
      run_events glob split_filename dir (Str mdir :: ('n, 'a) mask_arg) k"
    unfolding ev pass_events_zip by (simp only: run_events_def Let_def len)
  have run: "csf_mask_intersection L glob split_filename dir (Str mdir) prob =
      (Inr out, run_events glob split_filename dir (Str mdir :: ('n, 'a) mask_arg) k)"
    using loop' out events by (simp add: csf_mask_intersection_valid [OF prob])
  have masks: "per_image_masks L glob split_filename dir (Str mdir) = Inr csf"
    using loop' by (simp add: per_image_masks_def Let_def)
  have log: "log_messages (run_events glob split_filename dir (Str mdir :: ('n, 'a) mask_arg) k) =
      map (\<lambda>i. progress_message (fst (snd (split_filename (?data ! i)))) (i + 1) ?n) [0..<k]"
    unfolding run_events_def Let_def log_messages_append log_messages_listing
    by (simp add: log_messages_passes)
  from run lout vout masks lcsf log show ?thesis
    by blast
qed


theorem mismatched_mask_directory_witness:
  "length (nii_files toy_glob ''/d'') = 2 \<and>
   length (nii_files toy_glob ''/m'') = 1 \<and>
   fst (loop_body toy_ants toy_split_filename 2 0 ''/d/a.nii'' (Str ''/m/a.nii'')) =
     Inr (vector [1, 0, 0]) \<and>
   csf_mask_intersection toy_ants toy_glob toy_split_filename ''/d'' (Str ''/m'') 1 =
     (Inr (vector [0, 0, 0]),
      run_events toy_glob toy_split_filename ''/d'' (Str ''/m'' :: (ndarray, ndarray) mask_arg) 1) \<and>
   run_events toy_glob toy_split_filename ''/d'' (Str ''/m'' :: (ndarray, ndarray) mask_arg) 1 =
     [Glob ''/d/*.nii*'', Glob ''/m/*.nii*'', LogInfo ''Creating CSF mask for image a (1/2)'',
      ImageRead ''/d/a.nii'', ImageRead ''/m/a.nii''] \<and>
   per_image_masks toy_ants toy_glob toy_split_filename ''/d'' (Str ''/m'') = Inr [vector [1, 0, 0]]"
proof -
  let ?masks = "Str ''/m'' :: (ndarray, ndarray) mask_arg"
  let ?events = "[Glob ''/d/*.nii*'', Glob ''/m/*.nii*'',
      LogInfo ''Creating CSF mask for image a (1/2)'', ImageRead ''/d/a.nii'', ImageRead ''/m/a.nii'']"
  have n: "length (nii_files toy_glob ''/d'') = 2"
    by code_simp
  have m: "length (nii_files toy_glob ''/m'') = 1"
    by code_simp
  have first: "nii_files toy_glob ''/d'' ! 0 = ''/d/a.nii'' \<and> nii_files toy_glob ''/m'' ! 0 = ''/m/a.nii''"
    by code_simp
  have pass: "fst (loop_body toy_ants toy_split_filename 2 0 ''/d/a.nii'' (Str ''/m/a.nii'')) =
      Inr (vector [1, 0, 0])"
    by code_simp
  have run: "csf_mask_intersection toy_ants toy_glob toy_split_filename ''/d'' ?masks 1 =
      (Inr (vector [0, 0, 0]), ?events)"
    by code_simp
  have masks: "per_image_masks toy_ants toy_glob toy_split_filename ''/d'' ?masks =
      Inr [vector [1, 0, 0]]"
    by code_simp
  have passes: "\<forall>i<1. \<exists>c. fst (loop_body toy_ants toy_split_filename (length (nii_files toy_glob ''/d'')) i
        (nii_files toy_glob ''/d'' ! i) (Str (nii_files toy_glob ''/m'' ! i))) = Inr c \<and> shape c = [3]"
    using pass by (simp add: n first vector_def)
  have "\<exists>out csf. csf_mask_intersection toy_ants toy_glob toy_split_filename ''/d'' ?masks 1 =
      (Inr out, run_events toy_glob toy_split_filename ''/d'' ?masks 1)"
    using mismatched_mask_directory [of 1 toy_glob "''/d''" "''/m''" 1 toy_ants toy_split_filename "[3]"]
      passes
    by (simp add: n m) blast
  with run have "run_events toy_glob toy_split_filename ''/d'' ?masks 1 = ?events"
    by auto
  with n m pass run masks show ?thesis
    by simp
qed

text \<open>
  Claim C9, as stated, fails when one of the two directories lists nothing: with two
  images and an empty mask directory no pair is processed and the call raises the
  TypeError of \<open>reduce\<close> on an empty list.
\<close>

theorem empty_mask_directory:
  "length (nii_files toy_glob ''/d'') = 2 \<and>
   length (nii_files toy_glob ''/x'') = 0 \<and>
   csf_mask_intersection toy_ants toy_glob toy_split_filename ''/d'' (Str ''/x'') 1 =
     (Inl TypeError, [Glob ''/d/*.nii*'', Glob ''/x/*.nii*''])"
  by code_simp

section \<open>\<open>main\<close>: the exit code\<close>

text \<open>
  Claim C8, as amended. Once the command line has parsed, \<open>main\<close> returns 0 when
  \<open>preprocess\<close> returns, and returns 1 after handing the exception to
  \<open>logger.exception\<close> when \<open>preprocess\<close> raises an instance of \<open>Exception\<close>. An
  exception that is not an instance of \<open>Exception\<close> leaves \<open>main\<close>, and so does the
  \<open>SystemExit\<close> of a command line that does not parse.
\<close>

theorem main_exit_code:
  "(parse_args argv = Inr args \<and>
      preprocess (img_dir args) (mask_dir args) (out_dir args) (resolution args)
        (orientation args) (n4_opts args) = Inr () \<longrightarrow>
        outcome (main parse_args preprocess argv) = Return 0 \<and>
        logged_exceptions (main parse_args preprocess argv) = []) \<and>
   (parse_args argv = Inr args \<and>
      preprocess (img_dir args) (mask_dir args) (out_dir args) (resolution args)
        (orientation args) (n4_opts args) = Inl (Exception e) \<longrightarrow>
        outcome (main parse_args preprocess argv) = Return 1 \<and>
        logged_exceptions (main parse_args preprocess argv) = [e]) \<and>
   (parse_args argv = Inr args \<and>
      preprocess (img_dir args) (mask_dir args) (out_dir args) (resolution args)
        (orientation args) (n4_opts args) = Inl b \<and> (\<forall>x. b \<noteq> Exception x) \<longrightarrow>
        outcome (main parse_args preprocess argv) = Raise b) \<and>
   (parse_args argv = Inl status \<longrightarrow>
        outcome (main parse_args preprocess argv) = Raise (SystemExit status))"
  by (auto simp: main_def Let_def split: exception.splits)

theorem main_exit_code_witness:
  "outcome (main toy_parse_args (\<lambda>i m out r ori n4. Inr ())
      [''-i'', ''in'', ''-m'', ''masks'', ''-o'', ''out'']) = (Return 0 :: string outcome) \<and>
   outcome (main toy_parse_args (\<lambda>i m out r ori n4. Inl (Exception ''mask not found''))
      [''-i'', ''in'', ''-m'', ''masks'', ''-o'', ''out'']) = Return 1 \<and>
   logged_exceptions (main toy_parse_args (\<lambda>i m out r ori n4. Inl (Exception ''mask not found''))
      [''-i'', ''in'', ''-m'', ''masks'', ''-o'', ''out'']) = [''mask not found''] \<and>
   outcome (main toy_parse_args (\<lambda>i m out r ori n4. Inr ()) [''-i'', ''in'']) =
     (Raise (SystemExit 2) :: string outcome)"
proof -
  let ?argv = "[''-i'', ''in'', ''-m'', ''masks'', ''-o'', ''out'']"
  let ?args = "\<lparr>img_dir = ''in'', mask_dir = ''masks'', out_dir = ''out'',
                resolution = [1, 1, 1], orientation = ''RAI'', n4_opts = None :: unit option,
                verbosity = 0\<rparr>"
  let ?returns = "(\<lambda>i m out r ori n4. Inr ()) ::
    string \<Rightarrow> string \<Rightarrow> string \<Rightarrow> int list \<Rightarrow> string \<Rightarrow> unit option \<Rightarrow> string exception + unit"
  let ?raises = "(\<lambda>i m out r ori n4. Inl (Exception ''mask not found'')) ::
    string \<Rightarrow> string \<Rightarrow> string \<Rightarrow> int list \<Rightarrow> string \<Rightarrow> unit option \<Rightarrow> string exception + unit"
  have p: "toy_parse_args ?argv = Inr ?args"
    by (simp add: toy_parse_args_def)
  have q: "toy_parse_args [''-i'', ''in''] = Inl 2"
    by (simp add: toy_parse_args_def)
  have ok: "outcome (main toy_parse_args ?returns ?argv) = Return 0"
    using p main_exit_code [of toy_parse_args ?argv ?args ?returns]
    by simp
  have ex: "outcome (main toy_parse_args ?raises ?argv) = Return 1 \<and>
            logged_exceptions (main toy_parse_args ?raises ?argv) = [''mask not found'']"
    using p main_exit_code [of toy_parse_args ?argv ?args ?raises "''mask not found''"]
    by simp
  have usage: "outcome (main toy_parse_args ?returns [''-i'', ''in'']) = Raise (SystemExit 2)"
    using q main_exit_code [of toy_parse_args "[''-i'', ''in'']" _ ?returns _ _ 2]
    by simp
  from ok ex usage show ?thesis by blast
qed

text \<open>
  Claim C8, as stated, fails: a \<open>KeyboardInterrupt\<close> raised in \<open>preprocess\<close> is not
  caught by \<open>except Exception\<close> and leaves \<open>main\<close>, and a command line without the
  required options leaves \<open>main\<close> by the \<open>SystemExit\<close> of argparse.
\<close>

theorem main_exception_escapes:
  "outcome (main toy_parse_args (\<lambda>i m out r ori n4. Inl KeyboardInterrupt)
      [''-i'', ''in'', ''-m'', ''masks'', ''-o'', ''out'']) = (Raise KeyboardInterrupt :: string outcome) \<and>
   outcome (main toy_parse_args (\<lambda>i m out r ori n4. Inr ()) []) =
     (Raise (SystemExit 2) :: string outcome)"
  by code_simp

end
